theory Spec2Isabelle
  imports Complex_Main
begin

section \<open>The wavelet-bench scripts: bench.py, encode.py, stats.py\<close>

text \<open>
  The three scripts drive external tools (ffprobe, ffmpeg, x264, dsv2) and compute a few
  numbers from what the tools print. The embedding keeps the scripts' control flow and
  makes the outside world a parameter:
  \<^item> a Python \<open>str\<close> is a \<open>string\<close> (code points below 256), an \<open>int\<close> an \<open>int\<close>;
  \<^item> a Python \<open>float\<close> is a \<open>real\<close>: rounding, overflow, infinities and NaN of IEEE
    doubles are outside the model, so every statement about a float is a statement about
    the exact value the expression denotes;
  \<^item> every exception the scripts can raise in exact arithmetic is a value \<open>Inl e\<close> of
    \<open>error + 'a\<close>;
  \<^item> the file system and the external processes answer through the record \<open>env\<close>, as
    functions of the path or command line they are asked about; printing is left out.
\<close>

subsection \<open>Errors\<close>

datatype error =
    OSError
  | RuntimeError string
  | ValueError
  | IndexError
  | KeyError
  | AttributeError
  | ZeroDivisionError

definition bind :: "error + 'a \<Rightarrow> ('a \<Rightarrow> error + 'b) \<Rightarrow> error + 'b" where
  "bind m f = (case m of Inl e \<Rightarrow> Inl e | Inr x \<Rightarrow> f x)"

subsection \<open>The Python built-ins the scripts call\<close>

text \<open>\<open>str.isspace\<close> on one code point below 256; \<open>str.strip\<close>, \<open>int\<close> and the
  regular expression class \<open>\s\<close> all use it.\<close>

definition isspace :: "char \<Rightarrow> bool" where
  "isspace c =
     (let n = (of_char c :: nat)
      in (9 \<le> n \<and> n \<le> 13) \<or> (28 \<le> n \<and> n \<le> 32) \<or> n = 133 \<or> n = 160)"

text \<open>The class \<open>\d\<close> below code point 256: the ASCII digits.\<close>

definition isdigit :: "char \<Rightarrow> bool" where
  "isdigit c = (let n = (of_char c :: nat) in 48 \<le> n \<and> n \<le> 57)"

definition digit_val :: "char \<Rightarrow> nat" where
  "digit_val c = of_char c - 48"

text \<open>The value of a string of decimal digits, most significant first.\<close>

definition nat_of_digits :: "string \<Rightarrow> nat" where
  "nat_of_digits ds = foldl (\<lambda>acc c. 10 * acc + digit_val c) 0 ds"

text \<open>\<open>s.strip()\<close>\<close>

definition strip :: "string \<Rightarrow> string" where
  "strip s = rev (dropWhile isspace (rev (dropWhile isspace s)))"

text \<open>\<open>s.split(sep)\<close> for a separator of one character: never an empty list.\<close>

fun split_char :: "char \<Rightarrow> string \<Rightarrow> string list" where
  "split_char sep [] = [[]]"
| "split_char sep (c # cs) =
     (if c = sep then [] # split_char sep cs
      else (case split_char sep cs of
              [] \<Rightarrow> [[c]]
            | w # ws \<Rightarrow> (c # w) # ws))"

text \<open>\<open>s.split()\<close>: the maximal runs of non-whitespace.\<close>

fun split_ws_acc :: "string \<Rightarrow> string \<Rightarrow> string list" where
  "split_ws_acc cur [] = (if cur = [] then [] else [rev cur])"
| "split_ws_acc cur (c # cs) =
     (if isspace c then (if cur = [] then split_ws_acc [] cs else rev cur # split_ws_acc [] cs)
      else split_ws_acc (c # cur) cs)"

definition split_ws :: "string \<Rightarrow> string list" where
  "split_ws s = split_ws_acc [] s"

text \<open>
  \<open>int(s)\<close> for a string: surrounding whitespace is dropped, one sign is allowed, then
  come decimal digits, with single underscores allowed between digits. Python 3.11 and
  later refuse more than 4300 digits. Anything else raises ValueError. The whitespace
  \<open>int\<close> drops is that of \<open>str.isspace\<close> without the four separators 28 to 31.
\<close>

fun no_double_underscore :: "string \<Rightarrow> bool" where
  "no_double_underscore (a # b # cs) =
     (\<not> (a = CHR ''_'' \<and> b = CHR ''_'') \<and> no_double_underscore (b # cs))"
| "no_double_underscore cs = True"

definition int_literal_ok :: "string \<Rightarrow> bool" where
  "int_literal_ok ds =
     (ds \<noteq> [] \<and> list_all (\<lambda>c. isdigit c \<or> c = CHR ''_'') ds
      \<and> hd ds \<noteq> CHR ''_'' \<and> last ds \<noteq> CHR ''_'' \<and> no_double_underscore ds
      \<and> length (filter isdigit ds) \<le> 4300)"

definition int_space :: "char \<Rightarrow> bool" where
  "int_space c =
     (let n = (of_char c :: nat) in (9 \<le> n \<and> n \<le> 13) \<or> n = 32 \<or> n = 133 \<or> n = 160)"

definition py_int :: "string \<Rightarrow> error + int" where
  "py_int s =
     (let t = rev (dropWhile int_space (rev (dropWhile int_space s)));
          (neg, ds) = (case t of
                         c # cs \<Rightarrow> if c = CHR ''-'' then (True, cs)
                                   else if c = CHR ''+'' then (False, cs)
                                   else (False, t)
                       | [] \<Rightarrow> (False, t))
      in if int_literal_ok ds
         then (let n = int (nat_of_digits (filter isdigit ds)) in Inr (if neg then - n else n))
         else Inl ValueError)"

text \<open>\<open>str(n)\<close> and \<open>f"{n}"\<close> for an int.\<close>

definition digit_char :: "nat \<Rightarrow> char" where
  "digit_char d = char_of (48 + d)"

fun str_nat :: "nat \<Rightarrow> string" where
  "str_nat n = (if n < 10 then [digit_char n] else str_nat (n div 10) @ [digit_char (n mod 10)])"

declare str_nat.simps [simp del]

definition str_int :: "int \<Rightarrow> string" where
  "str_int i = (if i < 0 then CHR ''-'' # str_nat (nat (- i)) else str_nat (nat i))"

text \<open>\<open>xs[i]\<close> for a non-negative literal index.\<close>

definition index :: "'a list \<Rightarrow> nat \<Rightarrow> error + 'a" where
  "index xs i = (if i < length xs then Inr (xs ! i) else Inl IndexError)"

text \<open>\<open>s.endswith(t)\<close>\<close>

definition endswith :: "string \<Rightarrow> string \<Rightarrow> bool" where
  "endswith s t = (length t \<le> length s \<and> drop (length s - length t) s = t)"

text \<open>\<open>s.rfind(c)\<close> for one character: the last position of \<open>c\<close>, or -1.\<close>

fun rfind_from :: "char \<Rightarrow> string \<Rightarrow> int \<Rightarrow> int \<Rightarrow> int" where
  "rfind_from c [] i found = found"
| "rfind_from c (d # ds) i found = rfind_from c ds (i + 1) (if d = c then i else found)"

definition rfind :: "char \<Rightarrow> string \<Rightarrow> int" where
  "rfind c s = rfind_from c s 0 (- 1)"

text \<open>\<open>os.path.basename\<close> (posixpath): what follows the last slash.\<close>

definition basename :: "string \<Rightarrow> string" where
  "basename p = drop (nat (rfind (CHR ''/'') p + 1)) p"

text \<open>
  \<open>os.path.splitext\<close> (posixpath): the extension starts at the last dot, when that dot
  comes after the last slash and some character between the slash and the dot is not a
  dot itself.
\<close>

definition splitext :: "string \<Rightarrow> string \<times> string" where
  "splitext p =
     (let sepIndex = rfind (CHR ''/'') p;
          dotIndex = rfind (CHR ''.'') p
      in if dotIndex > sepIndex
            \<and> list_ex (\<lambda>c. c \<noteq> CHR ''.'')
                 (take (nat (dotIndex - (sepIndex + 1))) (drop (nat (sepIndex + 1)) p))
         then (take (nat dotIndex) p, drop (nat dotIndex) p)
         else (p, []))"

text \<open>Float division, \<open>math.log10\<close> and \<open>int(x)\<close> for a float.\<close>

definition py_div :: "real \<Rightarrow> real \<Rightarrow> error + real" where
  "py_div a b = (if b = 0 then Inl ZeroDivisionError else Inr (a / b))"

definition log10 :: "real \<Rightarrow> error + real" where
  "log10 x = (if x \<le> 0 then Inl ValueError else Inr (log 10 x))"

definition int_of_float :: "real \<Rightarrow> int" where
  "int_of_float x = (if 0 \<le> x then \<lfloor>x\<rfloor> else \<lceil>x\<rceil>)"

subsection \<open>The two regular expressions of bench.py\<close>

text \<open>
  Each matcher consumes a prefix of its input and returns the rest. In both patterns
  every greedy repetition is followed by a character outside its class, so the first
  attempt at a position is the only one that can succeed, and \<open>re.search\<close> is the first
  position where the attempt succeeds.
\<close>

definition lit :: "string \<Rightarrow> string \<Rightarrow> string option" where
  "lit l s = (if take (length l) s = l then Some (drop (length l) s) else None)"

text \<open>\<open>\s+\<close> and \<open>\s*\<close>\<close>

definition spaces1 :: "string \<Rightarrow> string option" where
  "spaces1 s = (case s of [] \<Rightarrow> None
                | c # cs \<Rightarrow> if isspace c then Some (dropWhile isspace cs) else None)"

definition spaces0 :: "string \<Rightarrow> string" where
  "spaces0 s = dropWhile isspace s"

text \<open>The group \<open>(\d+\.\d+)\<close>: the digits before and after the dot, and the rest.\<close>

definition decimal :: "string \<Rightarrow> ((string \<times> string) \<times> string) option" where
  "decimal s =
     (let ip = takeWhile isdigit s; r1 = dropWhile isdigit s
      in if ip = [] then None
         else (case r1 of
                 [] \<Rightarrow> None
               | c # r2 \<Rightarrow>
                   if c \<noteq> CHR ''.'' then None
                   else (let fp = takeWhile isdigit r2
                         in if fp = [] then None
                            else Some ((ip, fp), dropWhile isdigit r2))))"

text \<open>\<open>float(g)\<close> for a matched group \<open>g\<close> of the shape \<open>\d+\.\d+\<close>.\<close>

definition float_of_group :: "string \<times> string \<Rightarrow> real" where
  "float_of_group g =
     (case g of (ip, fp) \<Rightarrow> real (nat_of_digits ip) + real (nat_of_digits fp) / 10 ^ length fp)"

text \<open>\<open>re.search\<close>: the leftmost position at which the pattern matches.\<close>

fun re_search :: "(string \<Rightarrow> 'a option) \<Rightarrow> string \<Rightarrow> 'a option" where
  "re_search m [] = m []"
| "re_search m (c # cs) = (case m (c # cs) of Some r \<Rightarrow> Some r | None \<Rightarrow> re_search m cs)"

declare re_search.simps [simp del]

text \<open>\<open>average:(\d+\.\d+)\<close> and \<open>All:(\d+\.\d+)\<close>\<close>

definition labelled_decimal :: "string \<Rightarrow> string \<Rightarrow> (string \<times> string) option" where
  "labelled_decimal l s =
     (case lit l s of None \<Rightarrow> None
      | Some r \<Rightarrow> (case decimal r of None \<Rightarrow> None | Some (g, _) \<Rightarrow> Some g))"

text \<open>\<open>XPSNR\s+y:\s*(\d+\.\d+)\s+u:\s*(\d+\.\d+)\s+v:\s*(\d+\.\d+)\<close>\<close>

definition plane :: "string \<Rightarrow> string \<Rightarrow> ((string \<times> string) \<times> string) option" where
  "plane l s =
     (case spaces1 s of None \<Rightarrow> None
      | Some r \<Rightarrow> (case lit l r of None \<Rightarrow> None | Some r' \<Rightarrow> decimal (spaces0 r')))"

definition xpsnr_rgx ::
  "string \<Rightarrow> ((string \<times> string) \<times> (string \<times> string) \<times> (string \<times> string)) option" where
  "xpsnr_rgx s =
     (case lit ''XPSNR'' s of None \<Rightarrow> None
      | Some r0 \<Rightarrow>
     (case plane ''y:'' r0 of None \<Rightarrow> None
      | Some (gy, r1) \<Rightarrow>
     (case plane ''u:'' r1 of None \<Rightarrow> None
      | Some (gu, r2) \<Rightarrow>
     (case plane ''v:'' r2 of None \<Rightarrow> None
      | Some (gv, _) \<Rightarrow> Some (gy, gu, gv)))))"

subsection \<open>The outside world\<close>

text \<open>
  What the scripts ask of the operating system:
  \<^item> \<open>getsize p\<close>: \<open>os.path.getsize(p)\<close>, \<open>None\<close> when it raises;
  \<^item> \<open>subprocess_run cmd\<close>: \<open>subprocess.run(cmd, capture_output=True, text=True)\<close>, the
    return code, stdout and stderr, or the error of a program that cannot be started;
  \<^item> \<open>popen cmd\<close>: \<open>subprocess.Popen(cmd, ...)\<close> followed by \<open>communicate()\<close>, the text
    the process wrote to stderr, or the error of a program that cannot be started;
  \<^item> \<open>elapsed cmd\<close>: the difference of the two \<open>time.time()\<close> readings taken around the
    encoder command \<open>cmd\<close>;
  \<^item> \<open>path_exists p\<close>: \<open>os.path.exists(p)\<close>; \<open>removable p\<close>: \<open>os.remove(p)\<close> succeeds.
\<close>

record env =
  getsize :: "string \<Rightarrow> int option"
  subprocess_run :: "string list \<Rightarrow> error + (int \<times> string \<times> string)"
  popen :: "string list \<Rightarrow> error + string"
  elapsed :: "string list \<Rightarrow> real"
  path_exists :: "string \<Rightarrow> bool"
  removable :: "string \<Rightarrow> bool"

text \<open>\<open>subprocess.Popen\<close> reads \<open>args[0]\<close> as the program: an empty command raises
  IndexError before anything is started.\<close>

definition Popen :: "env \<Rightarrow> string list \<Rightarrow> error + string" where
  "Popen world cmd = (if cmd = [] then Inl IndexError else popen world cmd)"

definition os_remove :: "env \<Rightarrow> string \<Rightarrow> error + unit" where
  "os_remove world p = (if removable world p then Inr () else Inl OSError)"

subsection \<open>bench.py: class CoreVideo\<close>

record CoreVideo =
  path :: string
  name :: string
  size_f :: int
  video_width :: int
  video_height :: int

definition get_input_filesize :: "env \<Rightarrow> string \<Rightarrow> error + int" where
  "get_input_filesize world p = (case getsize world p of None \<Rightarrow> Inl OSError | Some n \<Rightarrow> Inr n)"

definition ffprobe_cmd :: "string \<Rightarrow> string list" where
  "ffprobe_cmd p =
     [''ffprobe'', ''-v'', ''error'', ''-select_streams'', ''v:0'', ''-show_entries'',
      ''stream=width,height'', ''-of'', ''csv=s=x:p=0'', p]"

definition get_video_dimensions :: "env \<Rightarrow> string \<Rightarrow> error + (int \<times> int)" where
  "get_video_dimensions world p =
     bind (subprocess_run world (ffprobe_cmd p)) (\<lambda>(returncode, stdout, stderr).
       if returncode \<noteq> 0
       then Inl (RuntimeError (''Error getting video dimensions: '' @ stderr))
       else (let dimensions = split_char (CHR ''x'') (strip stdout)
             in bind (index dimensions 0) (\<lambda>d0.
                bind (py_int d0) (\<lambda>w.
                bind (index dimensions 1) (\<lambda>d1.
                bind (py_int d1) (\<lambda>h. Inr (w, h)))))))"

definition CoreVideo_init :: "env \<Rightarrow> string \<Rightarrow> error + CoreVideo" where
  "CoreVideo_init world pth =
     bind (get_input_filesize world pth) (\<lambda>sz.
     bind (get_video_dimensions world pth) (\<lambda>(w, h).
       Inr \<lparr>path = pth, name = basename pth, size_f = sz,
            video_width = w, video_height = h\<rparr>))"

subsection \<open>bench.py: psnr_to_mse and class DstVideo\<close>

text \<open>\<open>(m**2) / (10 ** (p / 10))\<close>\<close>

definition psnr_to_mse :: "real \<Rightarrow> int \<Rightarrow> error + real" where
  "psnr_to_mse p m = py_div (real_of_int (m ^ 2)) (10 powr (p / 10))"

record DstVideo = CoreVideo +
  enc_path :: string
  xpsnr_y :: real
  xpsnr_u :: real
  xpsnr_v :: real
  w_xpsnr :: real
  psnr :: real
  ssim :: real

text \<open>The size is that of the encoder's output \<open>e_pth\<close>; the dimensions are probed on
  the comparison path \<open>pth\<close>.\<close>

definition DstVideo_init :: "env \<Rightarrow> string \<Rightarrow> string \<Rightarrow> error + DstVideo" where
  "DstVideo_init world pth e_pth =
     bind (get_input_filesize world e_pth) (\<lambda>sz.
     bind (get_video_dimensions world pth) (\<lambda>(w, h).
       Inr \<lparr>path = pth, name = basename pth, size_f = sz,
            video_width = w, video_height = h,
            enc_path = e_pth, xpsnr_y = 0, xpsnr_u = 0, xpsnr_v = 0,
            w_xpsnr = 0, psnr = 0, ssim = 0\<rparr>))"

definition psnr_ssim_cmd :: "string \<Rightarrow> string \<Rightarrow> string list" where
  "psnr_ssim_cmd src_path dst_path =
     [''ffmpeg'', ''-i'', src_path, ''-i'', dst_path, ''-filter_complex'',
      ''[0:v][1:v]psnr=shortest=1;[0:v][1:v]ssim=shortest=1'', ''-f'', ''null'', ''-'']"

definition calculate_psnr_ssim :: "env \<Rightarrow> DstVideo \<Rightarrow> CoreVideo \<Rightarrow> error + DstVideo" where
  "calculate_psnr_ssim world self s =
     bind (Popen world (psnr_ssim_cmd (path s) (path self))) (\<lambda>stderr.
       let psnr_match = re_search (labelled_decimal ''average:'') stderr;
           self1 = self\<lparr>psnr := (case psnr_match of Some g \<Rightarrow> float_of_group g | None \<Rightarrow> 0)\<rparr>;
           ssim_match = re_search (labelled_decimal ''All:'') stderr
       in Inr (self1\<lparr>ssim := (case ssim_match of Some g \<Rightarrow> float_of_group g | None \<Rightarrow> 0)\<rparr>))"

definition xpsnr_cmd :: "string \<Rightarrow> string \<Rightarrow> string list" where
  "xpsnr_cmd dst_path src_path =
     [''ffmpeg'', ''-i'', dst_path, ''-i'', src_path, ''-hide_banner'', ''-lavfi'',
      ''xpsnr=shortest=1'', ''-f'', ''null'', ''-'']"

definition calculate_xpsnr :: "env \<Rightarrow> DstVideo \<Rightarrow> CoreVideo \<Rightarrow> error + DstVideo" where
  "calculate_xpsnr world self s =
     bind (Popen world (xpsnr_cmd (path self) (path s))) (\<lambda>stderr.
       let self1 = (case re_search xpsnr_rgx stderr of
                      Some (gy, gu, gv) \<Rightarrow>
                        self\<lparr>xpsnr_y := float_of_group gy, xpsnr_u := float_of_group gu,
                             xpsnr_v := float_of_group gv\<rparr>
                    | None \<Rightarrow> self\<lparr>xpsnr_y := 0, xpsnr_u := 0, xpsnr_v := 0\<rparr>);
           maxval = (255 :: int)
       in bind (psnr_to_mse (xpsnr_y self1) maxval) (\<lambda>xpsnr_mse_y.
          bind (psnr_to_mse (xpsnr_u self1) maxval) (\<lambda>xpsnr_mse_u.
          bind (psnr_to_mse (xpsnr_v self1) maxval) (\<lambda>xpsnr_mse_v.
            let w_xpsnr_mse = ((4 * xpsnr_mse_y) + xpsnr_mse_u + xpsnr_mse_v) / 6
            in bind (py_div (real_of_int (maxval ^ 2)) w_xpsnr_mse) (\<lambda>ratio.
               bind (log10 ratio) (\<lambda>l.
                 Inr (self1\<lparr>w_xpsnr := 10 * l\<rparr>)))))))"

subsection \<open>bench.py: class VideoEnc\<close>

record VideoEnc =
  src :: CoreVideo
  dst_pth :: string
  q_f :: int
  encoder :: string
  encoder_args :: "string list"
  time :: "real option"

definition get_ext :: "string \<Rightarrow> string" where
  "get_ext enc =
     (if enc = ''dirac'' then ''mkv''
      else if enc = ''snow'' then ''avi''
      else if enc = ''x264'' then ''264''
      else ''dsv'')"

text \<open>
  The destination argument is \<open>None\<close> for Python's \<open>None\<close> (encode.py without \<open>--out\<close>);
  \<open>not dst_pth\<close> holds for \<open>None\<close> and for the empty string. The attribute \<open>time\<close> is not
  assigned by the constructor.
\<close>

definition VideoEnc_init ::
  "CoreVideo \<Rightarrow> int \<Rightarrow> string \<Rightarrow> string list \<Rightarrow> string option \<Rightarrow> VideoEnc" where
  "VideoEnc_init s qv enc enc_args dst =
     \<lparr>src = s,
      dst_pth = (if dst = None \<or> dst = Some []
                 then (let base_name = fst (splitext (name s)); ext = get_ext enc
                       in base_name @ ''_'' @ enc @ ''_q'' @ str_int qv @ ''.'' @ ext)
                 else the dst),
      q_f = qv, encoder = enc,
      encoder_args = (if enc_args \<noteq> [] then enc_args else [[]]),
      time = None\<rparr>"

text \<open>Lines 241 to 308 of \<open>encode\<close>: the commands and the comparison path chosen before
  anything runs, as \<open>(ff_cmd, enc_cmd, dec_pth)\<close>.\<close>

definition encode_cmds :: "VideoEnc \<Rightarrow> string list \<times> string list \<times> string" where
  "encode_cmds self =
     (let extra = (if encoder_args self \<noteq> [[]] then encoder_args self else []);
          (enc_cmd, dec_pth) =
            (if encoder self = ''x264'' then
               ([''x264'', ''--demuxer'', ''y4m'', ''--crf'', str_int (q_f self), ''-o'',
                 dst_pth self, ''-''] @ extra,
                dst_pth self)
             else if encoder self = ''dsv2'' then
               ([''dsv2'', ''e'', ''-inp=-'', ''-out='' @ dst_pth self,
                 ''-qp='' @ str_int (q_f self), ''-y''] @ extra,
                fst (splitext (dst_pth self)) @ ''_decoded.y4m'')
             else ([], []));
          ff_cmd =
            (if encoder self \<noteq> ''snow'' then
               [''ffmpeg'', ''-hide_banner'', ''-y'', ''-loglevel'', ''error'', ''-i'',
                path (src self), ''-pix_fmt'', ''yuv420p'', ''-strict'', ''-2'', ''-f'',
                ''yuv4mpegpipe'', ''-'']
             else
               [''ffmpeg'', ''-y'', ''-hide_banner'', ''-loglevel'', ''error'', ''-i'',
                path (src self), ''-pix_fmt'', ''yuv420p'', ''-c:v'', ''snow'', ''-q:v'',
                str_int (q_f self), dst_pth self] @ extra)
      in (ff_cmd, enc_cmd, dec_pth))"

text \<open>Lines 310 to 379 of \<open>encode\<close>: the processes are started and waited for, the time
  is stored in the job, and the DstVideo is built from the comparison path and the
  destination path.\<close>

definition encode :: "env \<Rightarrow> VideoEnc \<Rightarrow> error + (VideoEnc \<times> DstVideo)" where
  "encode world self =
     (case encode_cmds self of (ff_cmd, enc_cmd, dec_pth) \<Rightarrow>
      if encoder self = ''dsv2'' then
        (let dec_y4m_path = fst (splitext (dst_pth self)) @ ''_decoded.y4m'' in
         bind (Popen world ff_cmd) (\<lambda>_.
         bind (Popen world enc_cmd) (\<lambda>enc_stderr.
         bind (Popen world [''dsv2'', ''d'', ''-inp='' @ dst_pth self,
                            ''-out='' @ dec_y4m_path, ''-y4m=1'', ''-y'']) (\<lambda>dec_stderr.
         bind (DstVideo_init world dec_y4m_path (dst_pth self)) (\<lambda>v.
           Inr (self\<lparr>time := Some (elapsed world enc_cmd)\<rparr>, v))))))
      else if encoder self \<noteq> ''snow'' then
         bind (Popen world ff_cmd) (\<lambda>_.
         bind (Popen world enc_cmd) (\<lambda>stderr.
         bind (DstVideo_init world dec_pth (dst_pth self)) (\<lambda>v.
           Inr (self\<lparr>time := Some (elapsed world enc_cmd)\<rparr>, v))))
      else
         bind (Popen world ff_cmd) (\<lambda>stderr.
         bind (DstVideo_init world (dst_pth self) (dst_pth self)) (\<lambda>v.
           Inr (self\<lparr>time := Some (elapsed world ff_cmd)\<rparr>, v))))"

definition remove_output :: "env \<Rightarrow> VideoEnc \<Rightarrow> error + unit" where
  "remove_output world self =
     bind (os_remove world (dst_pth self)) (\<lambda>_.
       if encoder self = ''dsv2'' then
         (let dec_y4m_path = fst (splitext (dst_pth self)) @ ''_decoded.y4m''
          in if path_exists world dec_y4m_path then os_remove world dec_y4m_path else Inr ())
       else Inr ())"

subsection \<open>encode.py\<close>

text \<open>Reading \<open>e.time\<close>: the attribute exists once \<open>encode\<close> has stored it.\<close>

definition get_time :: "VideoEnc \<Rightarrow> error + real" where
  "get_time e = (case time e of None \<Rightarrow> Inl AttributeError | Some t \<Rightarrow> Inr t)"

text \<open>\<open>main\<close> of encode.py after argument parsing; \<open>dst\<close> is \<open>args.out\<close>, \<open>None\<close> when the
  option is absent. The result is the DstVideo whose scores are printed.\<close>

definition encode_main ::
  "env \<Rightarrow> string \<Rightarrow> string option \<Rightarrow> int \<Rightarrow> string \<Rightarrow> string list \<Rightarrow> error + DstVideo" where
  "encode_main world src_pth dst qv enc enc_args =
     bind (CoreVideo_init world src_pth) (\<lambda>s.
     bind (encode world (VideoEnc_init s qv enc enc_args dst)) (\<lambda>(e, v).
     bind (get_time e) (\<lambda>_.
     bind (calculate_psnr_ssim world v s) (\<lambda>v1.
     bind (calculate_xpsnr world v1 s) (\<lambda>v2.
     bind (if dst = None \<or> dst = Some [] then remove_output world e else Inr ()) (\<lambda>_.
       Inr v2))))))"

subsection \<open>stats.py\<close>

text \<open>
  A CSV file is the list of its lines: the header \<open>q,encode_time,output_filesize,psnr,
  ssim,wxpsnr\<close> or a row of statistics. A row keeps the numbers; how they are printed
  (five decimals) is left out. The files are a map from file names to contents.
\<close>

datatype csv_line = Header | Stats int real int real real real

type_synonym files = "string \<rightharpoonup> csv_line list"

definition write_stats ::
  "files \<Rightarrow> string \<Rightarrow> int \<Rightarrow> real \<Rightarrow> int \<Rightarrow> real \<Rightarrow> real \<Rightarrow> real \<Rightarrow> files" where
  "write_stats fs nm qv encode_time sz p s w =
     (let csv = (if endswith nm ''.csv'' then nm else nm @ ''.csv'')
      in case fs csv of
           None \<Rightarrow> fs(csv \<mapsto> [Header, Stats qv encode_time sz p s w])
         | Some ls \<Rightarrow> fs(csv \<mapsto> ls @ [Stats qv encode_time sz p s w]))"

text \<open>The five lists of dictionaries of \<open>main\<close>, one dictionary per video, keyed by the
  quality value.\<close>

record tables =
  cumulative_sizes :: "(int \<rightharpoonup> int) list"
  cumulative_times :: "(int \<rightharpoonup> real) list"
  cumulative_psnr :: "(int \<rightharpoonup> real) list"
  cumulative_ssim :: "(int \<rightharpoonup> real) list"
  cumulative_wxpsnr :: "(int \<rightharpoonup> real) list"

text \<open>\<open>[{q: z for q in quality_list} for _ in range(n)]\<close>\<close>

definition init_table :: "nat \<Rightarrow> int list \<Rightarrow> 'a \<Rightarrow> (int \<rightharpoonup> 'a) list" where
  "init_table n quality_list z = replicate n (map_of (map (\<lambda>k. (k, z)) quality_list))"

text \<open>\<open>tbl[i][k] = v\<close>\<close>

definition store :: "(int \<rightharpoonup> 'a) list \<Rightarrow> nat \<Rightarrow> int \<Rightarrow> 'a \<Rightarrow> error + (int \<rightharpoonup> 'a) list" where
  "store tbl i k v = (if i < length tbl then Inr (tbl[i := (tbl ! i)(k \<mapsto> v)]) else Inl IndexError)"

text \<open>\<open>tbl[j][k]\<close>\<close>

definition fetch :: "(int \<rightharpoonup> 'a) list \<Rightarrow> int \<Rightarrow> nat \<Rightarrow> error + 'a" where
  "fetch tbl k j =
     (if j < length tbl
      then (case (tbl ! j) k of None \<Rightarrow> Inl KeyError | Some v \<Rightarrow> Inr v)
      else Inl IndexError)"

text \<open>A comprehension over a list whose body can raise: the first error ends it.\<close>

fun collect :: "('a \<Rightarrow> error + 'b) \<Rightarrow> 'a list \<Rightarrow> error + 'b list" where
  "collect f [] = Inr []"
| "collect f (x # xs) = bind (f x) (\<lambda>y. bind (collect f xs) (\<lambda>ys. Inr (y # ys)))"

text \<open>The values \<open>tbl[j][k] for j in range(i)\<close> that \<open>sum\<close> adds up.\<close>

definition column :: "(int \<rightharpoonup> 'a) list \<Rightarrow> nat \<Rightarrow> int \<Rightarrow> error + 'a list" where
  "column tbl i k = collect (fetch tbl k) [0..<i]"

text \<open>Lines 118 to 123: one encode and its two metric passes; the job, the encode time
  and the scored video.\<close>

definition measure_cell ::
  "env \<Rightarrow> string \<Rightarrow> string list \<Rightarrow> CoreVideo \<Rightarrow> int \<Rightarrow> error + (VideoEnc \<times> real \<times> DstVideo)" where
  "measure_cell world enc enc_args s qv =
     bind (encode world (VideoEnc_init s qv enc enc_args (Some []))) (\<lambda>(e, v).
     bind (get_time e) (\<lambda>t.
     bind (calculate_psnr_ssim world v s) (\<lambda>v1.
     bind (calculate_xpsnr world v1 s) (\<lambda>v2.
       Inr (e, t, v2)))))"

text \<open>Lines 125 to 129.\<close>

definition record_cell :: "tables \<Rightarrow> nat \<Rightarrow> int \<Rightarrow> real \<Rightarrow> DstVideo \<Rightarrow> error + tables" where
  "record_cell T i qv t v =
     bind (store (cumulative_times T) i qv t) (\<lambda>times.
     bind (store (cumulative_sizes T) i qv (size_f v)) (\<lambda>sizes.
     bind (store (cumulative_psnr T) i qv (psnr v)) (\<lambda>psnrs.
     bind (store (cumulative_ssim T) i qv (ssim v)) (\<lambda>ssims.
     bind (store (cumulative_wxpsnr T) i qv (w_xpsnr v)) (\<lambda>wxpsnrs.
       Inr \<lparr>cumulative_sizes = sizes, cumulative_times = times, cumulative_psnr = psnrs,
            cumulative_ssim = ssims, cumulative_wxpsnr = wxpsnrs\<rparr>)))))"

text \<open>The loop over the qualities for the video with index \<open>i\<close> (lines 115 to 132).\<close>

fun quality_loop ::
  "env \<Rightarrow> string \<Rightarrow> string list \<Rightarrow> bool \<Rightarrow> CoreVideo \<Rightarrow> nat \<Rightarrow> int list \<Rightarrow> tables
     \<Rightarrow> error + tables" where
  "quality_loop world enc enc_args clean s i [] T = Inr T"
| "quality_loop world enc enc_args clean s i (qv # qs) T =
     bind (measure_cell world enc enc_args s qv) (\<lambda>(e, t, v).
     bind (record_cell T i qv t v) (\<lambda>T'.
     bind (if clean then remove_output world e else Inr ()) (\<lambda>_.
       quality_loop world enc enc_args clean s i qs T')))"

text \<open>The loop over the videos (lines 110 to 133); it returns the counter \<open>i\<close> with the
  tables.\<close>

fun video_loop ::
  "env \<Rightarrow> string \<Rightarrow> string list \<Rightarrow> bool \<Rightarrow> int list \<Rightarrow> string list \<Rightarrow> nat \<Rightarrow> tables
     \<Rightarrow> error + (nat \<times> tables)" where
  "video_loop world enc enc_args clean quality_list [] i T = Inr (i, T)"
| "video_loop world enc enc_args clean quality_list (p # ps) i T =
     bind (CoreVideo_init world p) (\<lambda>s.
     bind (quality_loop world enc enc_args clean s i quality_list T) (\<lambda>T'.
       video_loop world enc enc_args clean quality_list ps (i + 1) T'))"

text \<open>The loop that writes the summary (lines 141 to 155): one call of \<open>write_stats\<close>
  per entry of the quality list. The dictionaries \<open>avg_time\<close> to \<open>avg_wxpsnr\<close> are only
  read back at the key just written, so the model keeps the values.\<close>

fun summary_loop :: "tables \<Rightarrow> nat \<Rightarrow> string \<Rightarrow> int list \<Rightarrow> files \<Rightarrow> error + files" where
  "summary_loop T i csv_out [] fs = Inr fs"
| "summary_loop T i csv_out (qv # qs) fs =
     bind (column (cumulative_times T) i qv) (\<lambda>ts.
     bind (py_div (sum_list ts) (real i)) (\<lambda>avg_time.
     bind (column (cumulative_sizes T) i qv) (\<lambda>szs.
     bind (py_div (real_of_int (sum_list szs)) (real i)) (\<lambda>mean_size.
     bind (column (cumulative_psnr T) i qv) (\<lambda>ps.
     bind (py_div (sum_list ps) (real i)) (\<lambda>avg_psnr.
     bind (column (cumulative_ssim T) i qv) (\<lambda>ss.
     bind (py_div (sum_list ss) (real i)) (\<lambda>avg_ssim.
     bind (column (cumulative_wxpsnr T) i qv) (\<lambda>ws.
     bind (py_div (sum_list ws) (real i)) (\<lambda>avg_wxpsnr.
       summary_loop T i csv_out qs
         (write_stats fs csv_out qv avg_time (int_of_float mean_size)
            avg_psnr avg_ssim avg_wxpsnr)))))))))))"

text \<open>\<open>main\<close> of stats.py from line 93 on, with the parsed quality list; \<open>clean\<close> is
  \<open>args.keep\<close>.\<close>

definition stats_run ::
  "env \<Rightarrow> files \<Rightarrow> string list \<Rightarrow> int list \<Rightarrow> string \<Rightarrow> string \<Rightarrow> bool \<Rightarrow> string list
     \<Rightarrow> error + files" where
  "stats_run world fs src_pth quality_list enc csv_out clean enc_args =
     (let n = length src_pth;
          T0 = \<lparr>cumulative_sizes = init_table n quality_list 0,
                cumulative_times = init_table n quality_list 0,
                cumulative_psnr = init_table n quality_list 0,
                cumulative_ssim = init_table n quality_list 0,
                cumulative_wxpsnr = init_table n quality_list 0\<rparr>
      in bind (video_loop world enc enc_args clean quality_list src_pth 0 T0) (\<lambda>(i, T).
           summary_loop T i csv_out quality_list fs))"

text \<open>\<open>main\<close> of stats.py: the quality list is \<open>[int(q) for q in args.quality.split()]\<close>.\<close>

definition stats_main ::
  "env \<Rightarrow> files \<Rightarrow> string list \<Rightarrow> string \<Rightarrow> string \<Rightarrow> string \<Rightarrow> bool \<Rightarrow> string list
     \<Rightarrow> error + files" where
  "stats_main world fs inputs quality enc output keep enc_args =
     bind (collect py_int (split_ws quality)) (\<lambda>quality_list.
       stats_run world fs inputs quality_list enc output keep enc_args)"

section \<open>The specification's formulas\<close>

text \<open>
  The weighted-XPSNR derivation as the specification words it, for a peak value and
  three plane values in decibels: each plane's \<open>mse = peak\<^sup>2 / 10^(psnr/10)\<close>, then
  \<open>weightedMse = (4 mseY + mseU + mseV) / 6\<close>, then
  \<open>weightedXpsnr = 10 log10(peak\<^sup>2 / weightedMse)\<close>.
\<close>

definition mse_spec :: "real \<Rightarrow> real \<Rightarrow> real" where
  "mse_spec peak p = peak ^ 2 / 10 powr (p / 10)"

definition weighted_xpsnr_spec :: "real \<Rightarrow> real \<Rightarrow> real \<Rightarrow> real \<Rightarrow> real" where
  "weighted_xpsnr_spec peak y u v =
     (let weightedMse = (4 * mse_spec peak y + mse_spec peak u + mse_spec peak v) / 6
      in 10 * log 10 (peak ^ 2 / weightedMse))"

text \<open>
  The round trip of the specification's testable properties: \<open>psnr_to_mse\<close>, then back
  to decibels by \<open>10 * math.log10(m**2 / mse)\<close>, the expression of line 170 of bench.py
  with the MSE of one plane in place of the weighted MSE (weight 1).
\<close>

definition mse_to_psnr :: "real \<Rightarrow> int \<Rightarrow> error + real" where
  "mse_to_psnr mse m =
     bind (py_div (real_of_int (m ^ 2)) mse) (\<lambda>ratio. bind (log10 ratio) (\<lambda>l. Inr (10 * l)))"

definition psnr_roundtrip :: "real \<Rightarrow> int \<Rightarrow> error + real" where
  "psnr_roundtrip p m = bind (psnr_to_mse p m) (\<lambda>mse. mse_to_psnr mse m)"

text \<open>
  "The prober's output parsed into two integers": the text is stripped and split at
  \<open>x\<close>, and the first two fields are integer literals (more fields are ignored).
\<close>

definition parse_dimensions :: "string \<Rightarrow> (int \<times> int) option" where
  "parse_dimensions stdout =
     (case split_char (CHR ''x'') (strip stdout) of
        d0 # d1 # _ \<Rightarrow> (case (py_int d0, py_int d1) of
                         (Inr w, Inr h) \<Rightarrow> Some (w, h)
                       | _ \<Rightarrow> None)
      | _ \<Rightarrow> None)"

text \<open>
  The summary row the specification describes for a quality value: the arithmetic mean
  over the videos of the recorded time, PSNR, SSIM and weighted XPSNR, and the mean of the
  recorded sizes truncated to an integer. \<open>recorded tbl k\<close> lists the values one table
  holds for the quality \<open>k\<close>, one per video.
\<close>

definition mean :: "real list \<Rightarrow> real" where
  "mean xs = sum_list xs / real (length xs)"

definition recorded :: "(int \<rightharpoonup> 'a) list \<Rightarrow> int \<Rightarrow> 'a list" where
  "recorded tbl k = map (\<lambda>d. the (d k)) tbl"

definition summary_row :: "tables \<Rightarrow> int \<Rightarrow> csv_line" where
  "summary_row T k =
     Stats k (mean (recorded (cumulative_times T) k))
       (int_of_float (mean (map real_of_int (recorded (cumulative_sizes T) k))))
       (mean (recorded (cumulative_psnr T) k))
       (mean (recorded (cumulative_ssim T) k))
       (mean (recorded (cumulative_wxpsnr T) k))"

text \<open>The CSV file with the given rows appended, after the header if the file is
  new; no row, no change.\<close>

definition csv_name :: "string \<Rightarrow> string" where
  "csv_name nm = (if endswith nm ''.csv'' then nm else nm @ ''.csv'')"

definition append_rows :: "files \<Rightarrow> string \<Rightarrow> csv_line list \<Rightarrow> files" where
  "append_rows fs nm rows =
     (if rows = [] then fs
      else fs(csv_name nm \<mapsto> (case fs (csv_name nm) of None \<Rightarrow> [Header] | Some ls \<Rightarrow> ls) @ rows))"

text \<open>The quality value a line of the CSV file is about.\<close>

definition row_quality :: "csv_line \<Rightarrow> int option" where
  "row_quality l = (case l of Header \<Rightarrow> None | Stats k _ _ _ _ _ \<Rightarrow> Some k)"

section \<open>Notions for the batch\<close>

text \<open>A table is filled when it has one dictionary per video and every dictionary has
  every quality of the list as a key; the five tables are complete when each is
  filled.\<close>

definition filled :: "nat \<Rightarrow> int list \<Rightarrow> (int \<rightharpoonup> 'a) list \<Rightarrow> bool" where
  "filled n ks tbl = (length tbl = n \<and> list_all (\<lambda>d. list_all (\<lambda>k. d k \<noteq> None) ks) tbl)"

definition complete :: "nat \<Rightarrow> int list \<Rightarrow> tables \<Rightarrow> bool" where
  "complete n ks T =
     (filled n ks (cumulative_sizes T) \<and> filled n ks (cumulative_times T)
      \<and> filled n ks (cumulative_psnr T) \<and> filled n ks (cumulative_ssim T)
      \<and> filled n ks (cumulative_wxpsnr T))"

text \<open>One cell of the batch runs through: the encode and both metric passes return,
  and, when the artifacts are discarded, so does the removal.\<close>

definition cell_ok :: "env \<Rightarrow> string \<Rightarrow> string list \<Rightarrow> bool \<Rightarrow> CoreVideo \<Rightarrow> int \<Rightarrow> bool" where
  "cell_ok world enc enc_args clean s k =
     (case measure_cell world enc enc_args s k of
        Inl _ \<Rightarrow> False
      | Inr (e, t, v) \<Rightarrow> \<not> clean \<or> remove_output world e = Inr ())"

text \<open>What the five tables hold for video \<open>j\<close> at quality \<open>k\<close>, and what one measured
  cell records there.\<close>

definition entry ::
  "tables \<Rightarrow> nat \<Rightarrow> int \<Rightarrow> real option \<times> int option \<times> real option \<times> real option \<times> real option" where
  "entry T j k =
     ((cumulative_times T ! j) k, (cumulative_sizes T ! j) k, (cumulative_psnr T ! j) k,
      (cumulative_ssim T ! j) k, (cumulative_wxpsnr T ! j) k)"

definition measured ::
  "real \<Rightarrow> DstVideo \<Rightarrow> real option \<times> int option \<times> real option \<times> real option \<times> real option" where
  "measured t v = (Some t, Some (size_f v), Some (psnr v), Some (ssim v), Some (w_xpsnr v))"

section \<open>Example inputs\<close>

text \<open>A source video, an encoded result as \<open>DstVideo_init\<close> builds it, and a world in
  which every file has 500 bytes, ffprobe reports 1920x1080 and every process writes the
  given report to stderr.\<close>

definition example_source :: CoreVideo where
  "example_source =
     \<lparr>path = ''clip.mp4'', name = ''clip.mp4'', size_f = 1000,
      video_width = 1920, video_height = 1080\<rparr>"

definition example_result :: DstVideo where
  "example_result =
     \<lparr>path = ''clip_x264_q23.264'', name = ''clip_x264_q23.264'', size_f = 500,
      video_width = 1920, video_height = 1080, enc_path = ''clip_x264_q23.264'',
      xpsnr_y = 0, xpsnr_u = 0, xpsnr_v = 0, w_xpsnr = 0, psnr = 0, ssim = 0\<rparr>"

definition example_world :: "string \<Rightarrow> env" where
  "example_world report =
     \<lparr>getsize = (\<lambda>p. Some 500),
      subprocess_run = (\<lambda>cmd. Inr (0, ''1920x1080'', [])),
      popen = (\<lambda>cmd. Inr report),
      elapsed = (\<lambda>cmd. 2),
      path_exists = (\<lambda>p. True),
      removable = (\<lambda>p. True)\<rparr>"

text \<open>A world like \<open>example_world\<close> in which ffprobe reports \<open>0x0\<close>.\<close>

definition example_world_0x0 :: env where
  "example_world_0x0 = (example_world [])\<lparr>subprocess_run := (\<lambda>cmd. Inr (0, ''0x0'', []))\<rparr>"

text \<open>A world for two videos a.mp4 and b.mp4: files whose name starts with b
  have 1001 bytes, the others 1000, and ffmpeg reports plane values 40 for every command
  that names b.mp4 and 38 otherwise.\<close>

definition example_world2 :: env where
  "example_world2 =
     \<lparr>getsize = (\<lambda>p. Some (if take 1 p = ''b'' then 1001 else 1000)),
      subprocess_run = (\<lambda>cmd. Inr (0, ''1920x1080'', [])),
      popen = (\<lambda>cmd. Inr (if ''b.mp4'' \<in> set cmd then ''XPSNR y: 40.0 u: 40.0 v: 40.0''
                             else ''XPSNR y: 38.0 u: 38.0 v: 38.0'')),
      elapsed = (\<lambda>cmd. 2),
      path_exists = (\<lambda>p. True),
      removable = (\<lambda>p. True)\<rparr>"

section \<open>Basic facts\<close>

lemma bind_Inr [simp]: "bind (Inr x) f = f x"
  by (simp add: bind_def)

lemma bind_Inl [simp]: "bind (Inl e) f = Inl e"
  by (simp add: bind_def)

lemma bind_eq_Inr: "bind m f = Inr y \<longleftrightarrow> (\<exists>x. m = Inr x \<and> f x = Inr y)"
  by (cases m) simp_all

lemma Popen_example: "cmd \<noteq> [] \<Longrightarrow> Popen (example_world report) cmd = Inr report"
  by (simp add: Popen_def example_world_def)

lemma Popen_example_xpsnr:
  "Popen (example_world report) (xpsnr_cmd (path example_result) (path example_source)) = Inr report"
  by (rule Popen_example) (simp add: xpsnr_cmd_def)

section \<open>The weighted XPSNR\<close>

text \<open>Over the reals \<open>10 ** x\<close> is positive, so \<open>psnr_to_mse\<close> never divides by zero.\<close>

lemma psnr_to_mse_eq: "psnr_to_mse p m = Inr (real_of_int (m ^ 2) / 10 powr (p / 10))"
  by (simp add: psnr_to_mse_def py_div_def)

text \<open>Lines 169 and 170: the weighted MSE is positive, the division and the logarithm
  succeed, and the value is the specification's.\<close>

lemma weighted_tail:
  fixes y u v :: real
  shows "bind (py_div (real_of_int (255 ^ 2))
            ((4 * (real_of_int (255 ^ 2) / 10 powr (y / 10)) + real_of_int (255 ^ 2) / 10 powr (u / 10)
              + real_of_int (255 ^ 2) / 10 powr (v / 10)) / 6))
           (\<lambda>ratio. bind (log10 ratio) (\<lambda>l. Inr (f (10 * l))))
         = Inr (f (weighted_xpsnr_spec 255 y u v))"
proof -
  define A where "A = real_of_int (255 ^ 2) / 10 powr (y / 10)"
  define B where "B = real_of_int (255 ^ 2) / 10 powr (u / 10)"
  define C where "C = real_of_int (255 ^ 2) / 10 powr (v / 10)"
  define wm where "wm = (4 * A + B + C) / 6"
  have a: "0 < A" and b: "0 < B" and c: "0 < C"
    by (simp_all add: A_def B_def C_def)
  have wm: "0 < wm" unfolding wm_def using a b c by simp
  then have r: "0 < real_of_int (255 ^ 2) / wm" by simp
  have eq: "weighted_xpsnr_spec 255 y u v = 10 * log 10 (real_of_int (255 ^ 2) / wm)"
    by (simp add: weighted_xpsnr_spec_def mse_spec_def wm_def A_def B_def C_def)
  have "bind (py_div (real_of_int (255 ^ 2)) wm) (\<lambda>ratio. bind (log10 ratio) (\<lambda>l. Inr (f (10 * l))))
         = Inr (f (weighted_xpsnr_spec 255 y u v))"
    using wm r by (simp add: py_div_def log10_def eq)
  then show ?thesis
    unfolding wm_def A_def B_def C_def .
qed

text \<open>What \<open>calculate_xpsnr\<close> returns once ffmpeg has run and written \<open>stderr\<close>.\<close>

lemma calculate_xpsnr_result:
  assumes "Popen world (xpsnr_cmd (path self) (path s)) = Inr stderr"
  shows "calculate_xpsnr world self s =
     (case re_search xpsnr_rgx stderr of
        Some (gy, gu, gv) \<Rightarrow>
          Inr (self\<lparr>xpsnr_y := float_of_group gy, xpsnr_u := float_of_group gu,
                    xpsnr_v := float_of_group gv,
                    w_xpsnr := weighted_xpsnr_spec 255 (float_of_group gy) (float_of_group gu)
                                 (float_of_group gv)\<rparr>)
      | None \<Rightarrow>
          Inr (self\<lparr>xpsnr_y := 0, xpsnr_u := 0, xpsnr_v := 0,
                    w_xpsnr := weighted_xpsnr_spec 255 0 0 0\<rparr>))"
proof (cases "re_search xpsnr_rgx stderr")
  case None
  show ?thesis
    unfolding calculate_xpsnr_def assms bind_Inr Let_def None option.case psnr_to_mse_eq
    using weighted_tail [where f = "\<lambda>x. self\<lparr>xpsnr_y := 0, xpsnr_u := 0, xpsnr_v := 0, w_xpsnr := x\<rparr>"
         and y = 0 and u = 0 and v = 0]
    by simp
next
  case (Some g)
  obtain gy gu gv where g: "g = (gy, gu, gv)" by (cases g) auto
  show ?thesis
    unfolding calculate_xpsnr_def assms bind_Inr Let_def Some g option.case prod.case psnr_to_mse_eq
    using weighted_tail [where f = "\<lambda>x. self\<lparr>xpsnr_y := float_of_group gy,
            xpsnr_u := float_of_group gu, xpsnr_v := float_of_group gv, w_xpsnr := x\<rparr>"
          and y = "float_of_group gy" and u = "float_of_group gu" and v = "float_of_group gv"]
    by simp
qed

lemma calculate_xpsnr_Inr:
  assumes "calculate_xpsnr world self s = Inr r"
  shows "w_xpsnr r = weighted_xpsnr_spec 255 (xpsnr_y r) (xpsnr_u r) (xpsnr_v r)"
proof -
  from assms obtain stderr where p: "Popen world (xpsnr_cmd (path self) (path s)) = Inr stderr"
    unfolding calculate_xpsnr_def bind_eq_Inr by blast
  show ?thesis
    using assms unfolding calculate_xpsnr_result [OF p]
    by (auto split: option.splits)
qed

lemma weighted_zero: "weighted_xpsnr_spec 255 0 0 0 = 0"
  by (simp add: weighted_xpsnr_spec_def mse_spec_def)

lemma weighted_equal: "peak \<noteq> 0 \<Longrightarrow> weighted_xpsnr_spec peak p p p = p"
  by (simp add: weighted_xpsnr_spec_def mse_spec_def log_divide)

text \<open>The weighted value lies strictly between a luma value and a larger bound on the
  two chroma values.\<close>

lemma weighted_between:
  assumes peak: "peak \<noteq> 0" and yu: "y < u" and yv: "y < v" and uh: "u \<le> h" and vh: "v \<le> h"
  shows "y < weighted_xpsnr_spec peak y u v \<and> weighted_xpsnr_spec peak y u v < h"
proof -
  define a where "a = (10::real) powr (y / 10)"
  define b where "b = (10::real) powr (u / 10)"
  define c where "c = (10::real) powr (v / 10)"
  define H where "H = (10::real) powr (h / 10)"
  define ia ib ic iH where "ia = 1 / a" and "ib = 1 / b" and "ic = 1 / c" and "iH = 1 / H"
  define S where "S = (4 * ia + ib + ic) / 6"
  have pos: "0 < a" "0 < b" "0 < c" "0 < H"
    by (simp_all add: a_def b_def c_def H_def)
  have ab: "a < b" and ac: "a < c" and bH: "b \<le> H" and cH: "c \<le> H" and aH: "a < H"
    using yu yv uh vh by (simp_all add: a_def b_def c_def H_def)
  have P: "0 < peak ^ 2" using peak by simp
  have "(4 * (peak ^ 2 / a) + peak ^ 2 / b + peak ^ 2 / c) / 6 = peak ^ 2 * S"
    unfolding S_def ia_def ib_def ic_def by (simp add: algebra_simps add_divide_distrib)
  then have "peak ^ 2 / ((4 * (peak ^ 2 / a) + peak ^ 2 / b + peak ^ 2 / c) / 6) = 1 / S"
    using P by simp
  then have W: "weighted_xpsnr_spec peak y u v = 10 * log 10 (1 / S)"
    unfolding weighted_xpsnr_spec_def mse_spec_def Let_def a_def b_def c_def by simp
  have ipos: "0 < ia" "0 < ib" "0 < ic" "0 < iH"
    using pos by (simp_all add: ia_def ib_def ic_def iH_def)
  have ilt: "ib < ia" "ic < ia" "iH < ia" "iH \<le> ib" "iH \<le> ic"
    using pos ab ac aH bH cH by (simp_all add: ia_def ib_def ic_def iH_def field_simps)
  have Spos: "0 < S" unfolding S_def using ipos by argo
  have S_hi: "S < ia" unfolding S_def using ilt by argo
  have S_lo: "iH < S" unfolding S_def using ilt by argo
  define R where "R = 1 / S"
  have Rpos: "0 < R" using Spos by (simp add: R_def)
  have lo: "a < R" using S_hi Spos pos by (simp add: R_def ia_def field_simps)
  have hi: "R < H" using S_lo Spos pos by (simp add: R_def iH_def field_simps)
  have "log 10 a < log 10 R"
    using lo pos Rpos by (simp add: log_less_cancel_iff)
  moreover have "log 10 R < log 10 H"
    using hi Rpos pos by (simp add: log_less_cancel_iff)
  moreover have "log 10 a = y / 10" "log 10 H = h / 10"
    by (simp_all add: a_def H_def)
  ultimately show ?thesis unfolding W R_def [symmetric] by simp
qed

text \<open>Two reports of ffmpeg and the numbers read from them.\<close>

lemma search_40_42_42:
  "re_search xpsnr_rgx ''XPSNR y: 40.0 u: 42.0 v: 42.0''
     = Some ((''40'', ''0''), (''42'', ''0''), (''42'', ''0''))"
  by code_simp

lemma search_none: "re_search xpsnr_rgx ''no scores'' = None"
  by code_simp

lemma float_40: "float_of_group (''40'', ''0'') = 40"
  by (simp add: float_of_group_def nat_of_digits_def digit_val_def)

lemma float_42: "float_of_group (''42'', ''0'') = 42"
  by (simp add: float_of_group_def nat_of_digits_def digit_val_def)

lemma example_xpsnr_40_42_42:
  "calculate_xpsnr (example_world ''XPSNR y: 40.0 u: 42.0 v: 42.0'') example_result example_source
     = Inr (example_result\<lparr>xpsnr_y := 40, xpsnr_u := 42, xpsnr_v := 42,
                            w_xpsnr := weighted_xpsnr_spec 255 40 42 42\<rparr>)"
  by (simp add: calculate_xpsnr_result [OF Popen_example_xpsnr] search_40_42_42 float_40 float_42)

lemma example_xpsnr_miss:
  "calculate_xpsnr (example_world ''no scores'') example_result example_source
     = Inr (example_result\<lparr>xpsnr_y := 0, xpsnr_u := 0, xpsnr_v := 0, w_xpsnr := 0\<rparr>)"
  by (simp add: calculate_xpsnr_result [OF Popen_example_xpsnr] search_none weighted_zero)

text \<open>
  Claim C2. Once ffmpeg has run, \<open>calculate_xpsnr\<close> returns a result whose three plane
  values are the numbers extracted from the report (0 for all three when the pattern
  is absent) and whose \<open>w_xpsnr\<close> is the specification's three-step formula at peak 255
  applied to these plane values.
\<close>

theorem calculate_xpsnr_formula:
  assumes "Popen world (xpsnr_cmd (path self) (path s)) = Inr stderr"
  shows "\<exists>r. calculate_xpsnr world self s = Inr r
           \<and> (xpsnr_y r, xpsnr_u r, xpsnr_v r)
               = (case re_search xpsnr_rgx stderr of
                    Some (gy, gu, gv) \<Rightarrow> (float_of_group gy, float_of_group gu, float_of_group gv)
                  | None \<Rightarrow> (0, 0, 0))
           \<and> w_xpsnr r = weighted_xpsnr_spec 255 (xpsnr_y r) (xpsnr_u r) (xpsnr_v r)"
  unfolding calculate_xpsnr_result [OF assms]
  by (auto split: option.splits)

theorem calculate_xpsnr_formula_witness:
  "\<exists>r. calculate_xpsnr (example_world ''XPSNR y: 40.0 u: 42.0 v: 42.0'')
          example_result example_source = Inr r
       \<and> (xpsnr_y r, xpsnr_u r, xpsnr_v r) = (40, 42, 42)
       \<and> w_xpsnr r = weighted_xpsnr_spec 255 40 42 42"
  using calculate_xpsnr_formula [OF Popen_example_xpsnr, of "''XPSNR y: 40.0 u: 42.0 v: 42.0''"]
  by (auto simp add: search_40_42_42 float_40 float_42)

text \<open>
  Claim C3. When \<open>calculate_xpsnr\<close> returns plane values Y = 40, U = 42, V = 42, the
  weighted XPSNR it derives (peak 255) lies strictly between 40 and 42.
\<close>

theorem weighted_xpsnr_40_42_42:
  assumes "calculate_xpsnr world self s = Inr r"
    and "xpsnr_y r = 40" and "xpsnr_u r = 42" and "xpsnr_v r = 42"
  shows "40 < w_xpsnr r \<and> w_xpsnr r < 42"
  using weighted_between [of 255 40 42 42 42] assms(2-4) calculate_xpsnr_Inr [OF assms(1)]
  by simp

theorem weighted_xpsnr_40_42_42_witness:
  "\<exists>r. calculate_xpsnr (example_world ''XPSNR y: 40.0 u: 42.0 v: 42.0'')
          example_result example_source = Inr r
       \<and> xpsnr_y r = 40 \<and> xpsnr_u r = 42 \<and> xpsnr_v r = 42 \<and> 40 < w_xpsnr r \<and> w_xpsnr r < 42"
  using weighted_xpsnr_40_42_42 [OF example_xpsnr_40_42_42] example_xpsnr_40_42_42
  by simp

text \<open>
  Claim C10. When all three plane values of a result of \<open>calculate_xpsnr\<close> are 0, each
  plane's MSE at peak 255 is \<open>255\<^sup>2\<close> and the weighted XPSNR is exactly 0.
\<close>

theorem weighted_xpsnr_all_zero:
  assumes "calculate_xpsnr world self s = Inr r"
    and "xpsnr_y r = 0" and "xpsnr_u r = 0" and "xpsnr_v r = 0"
  shows "psnr_to_mse (xpsnr_y r) 255 = Inr (255 ^ 2)
       \<and> psnr_to_mse (xpsnr_u r) 255 = Inr (255 ^ 2)
       \<and> psnr_to_mse (xpsnr_v r) 255 = Inr (255 ^ 2)
       \<and> w_xpsnr r = 0"
  using assms(2-4) calculate_xpsnr_Inr [OF assms(1)]
  by (simp add: psnr_to_mse_eq weighted_zero)

theorem weighted_xpsnr_all_zero_witness:
  "\<exists>r. calculate_xpsnr (example_world ''no scores'') example_result example_source = Inr r
       \<and> xpsnr_y r = 0 \<and> xpsnr_u r = 0 \<and> xpsnr_v r = 0
       \<and> psnr_to_mse (xpsnr_y r) 255 = Inr (255 ^ 2) \<and> w_xpsnr r = 0"
  using weighted_xpsnr_all_zero [OF example_xpsnr_miss] example_xpsnr_miss
  by simp

text \<open>
  Claim C4, as stated, fails at peak 0: \<open>psnr_to_mse\<close> returns 0 and the conversion back
  divides by it.
\<close>

theorem psnr_roundtrip_zero_peak:
  "psnr_roundtrip 40 0 = Inl ZeroDivisionError
   \<and> \<not> (\<exists>r. psnr_roundtrip 40 0 = Inr r \<and> \<bar>r - 40\<bar> \<le> 1 / 10 ^ 9)"
  by (simp add: psnr_roundtrip_def psnr_to_mse_eq mse_to_psnr_def py_div_def)

text \<open>
  Claim C4, amended. For every PSNR value \<open>p\<close> and every peak \<open>m\<close> other than 0,
  converting to an MSE by \<open>psnr_to_mse\<close> and back to decibels returns \<open>p\<close> (in exact
  arithmetic, so within any tolerance).
\<close>

theorem psnr_roundtrip_nonzero_peak:
  assumes "m \<noteq> 0"
  shows "psnr_roundtrip p m = Inr p"
proof -
  have P: "0 < real_of_int (m ^ 2)" using assms by simp
  have mse: "0 < real_of_int (m ^ 2) / 10 powr (p / 10)" using P by simp
  have ratio: "real_of_int (m ^ 2) / (real_of_int (m ^ 2) / 10 powr (p / 10)) = 10 powr (p / 10)"
    using P by simp
  show ?thesis
    unfolding psnr_roundtrip_def psnr_to_mse_eq bind_Inr mse_to_psnr_def
    using mse P by (simp add: py_div_def log10_def ratio del: of_int_power)
qed

theorem psnr_roundtrip_nonzero_peak_witness:
  "(255::int) \<noteq> 0 \<and> psnr_roundtrip 40 255 = Inr 40"
  using psnr_roundtrip_nonzero_peak [of 255 40] by simp

section \<open>The derived destination path\<close>

lemma str_int_23: "str_int 23 = ''23''"
  by code_simp

lemma splitext_clip: "splitext ''clip.mp4'' = (''clip'', ''.mp4'')"
  by code_simp

text \<open>
  Claim C5. Without an explicit destination (\<open>None\<close> or the empty string) the
  destination path of an encode job is the stem of the source name, \<open>_\<close>, the encoder,
  \<open>_q\<close>, the quality, a dot and the extension of \<open>get_ext\<close>, whose table is x264 to 264,
  dirac to mkv, snow to avi and anything else to dsv; for the source name clip.mp4,
  encoder x264 and quality 23 it is clip_x264_q23.264.
\<close>

theorem derived_dst_pth:
  assumes "dst = None \<or> dst = Some []"
  shows "dst_pth (VideoEnc_init s qv enc enc_args dst)
           = fst (splitext (name s)) @ ''_'' @ enc @ ''_q'' @ str_int qv @ ''.'' @ get_ext enc
       \<and> get_ext ''x264'' = ''264'' \<and> get_ext ''dirac'' = ''mkv'' \<and> get_ext ''snow'' = ''avi''
       \<and> (enc \<notin> {''x264'', ''dirac'', ''snow''} \<longrightarrow> get_ext enc = ''dsv'')
       \<and> (name s = ''clip.mp4''
            \<longrightarrow> dst_pth (VideoEnc_init s 23 ''x264'' enc_args dst) = ''clip_x264_q23.264'')"
  using assms by (auto simp add: VideoEnc_init_def get_ext_def str_int_23 splitext_clip)

theorem derived_dst_pth_witness:
  "dst_pth (VideoEnc_init example_source 23 ''x264'' [] None) = ''clip_x264_q23.264''
   \<and> get_ext ''dsv2'' = ''dsv''"
  using derived_dst_pth [of None example_source 23 "''dsv2''" "[]"]
  by (simp add: example_source_def)

section \<open>A report without scores\<close>

lemma calculate_psnr_ssim_result:
  assumes "Popen world (psnr_ssim_cmd (path s) (path self)) = Inr stderr"
  shows "calculate_psnr_ssim world self s =
     Inr (self\<lparr>psnr := (case re_search (labelled_decimal ''average:'') stderr of
                           Some g \<Rightarrow> float_of_group g | None \<Rightarrow> 0),
               ssim := (case re_search (labelled_decimal ''All:'') stderr of
                           Some g \<Rightarrow> float_of_group g | None \<Rightarrow> 0)\<rparr>)"
  by (simp add: calculate_psnr_ssim_def assms Let_def)

lemma search_average_none: "re_search (labelled_decimal ''average:'') ''no scores'' = None"
  by code_simp

lemma search_All_none: "re_search (labelled_decimal ''All:'') ''no scores'' = None"
  by code_simp

lemma Popen_example_psnr_ssim:
  "Popen (example_world report) (psnr_ssim_cmd (path example_source) (path example_result))
     = Inr report"
  by (rule Popen_example) (simp add: psnr_ssim_cmd_def)

text \<open>
  Claim C8. Once ffmpeg has run and written its report, \<open>calculate_psnr_ssim\<close> returns
  a result (no exception) whose \<open>psnr\<close> is 0 when the report has no match for the PSNR
  pattern and whose \<open>ssim\<close> is 0 when it has no match for the SSIM pattern; and
  \<open>calculate_xpsnr\<close> returns a result whose three plane values are 0 when the report has
  no match for the XPSNR pattern.
\<close>

theorem metric_miss_is_zero:
  "(Popen world (psnr_ssim_cmd (path s) (path self)) = Inr stderr \<longrightarrow>
      (\<exists>r. calculate_psnr_ssim world self s = Inr r
          \<and> (re_search (labelled_decimal ''average:'') stderr = None \<longrightarrow> psnr r = 0)
          \<and> (re_search (labelled_decimal ''All:'') stderr = None \<longrightarrow> ssim r = 0)))
   \<and> (Popen world (xpsnr_cmd (path self) (path s)) = Inr stderr
        \<and> re_search xpsnr_rgx stderr = None \<longrightarrow>
      (\<exists>r. calculate_xpsnr world self s = Inr r
          \<and> xpsnr_y r = 0 \<and> xpsnr_u r = 0 \<and> xpsnr_v r = 0))"
  by (auto simp add: calculate_psnr_ssim_result calculate_xpsnr_result)

theorem metric_miss_is_zero_witness:
  "(\<exists>r. calculate_psnr_ssim (example_world ''no scores'') example_result example_source = Inr r
        \<and> psnr r = 0 \<and> ssim r = 0)
   \<and> (\<exists>r. calculate_xpsnr (example_world ''no scores'') example_result example_source = Inr r
        \<and> xpsnr_y r = 0 \<and> xpsnr_u r = 0 \<and> xpsnr_v r = 0)"
  using metric_miss_is_zero [of "example_world ''no scores''" example_source example_result
      "''no scores''"]
  by (simp add: Popen_example_psnr_ssim Popen_example_xpsnr search_average_none search_All_none
      search_none)

section \<open>The encoder dirac\<close>

text \<open>
  Claim C1 at the encoder dirac, which both command lines accept and \<open>get_ext\<close> knows:
  \<open>encode\<close> has no branch for it, so the encoder command and the comparison path stay
  empty, and starting the empty command raises before any result is built.
\<close>

theorem encode_dirac_fails:
  "fst (snd (encode_cmds (VideoEnc_init s qv ''dirac'' enc_args dst))) = []
   \<and> snd (snd (encode_cmds (VideoEnc_init s qv ''dirac'' enc_args dst))) = []
   \<and> (\<exists>e. encode world (VideoEnc_init s qv ''dirac'' enc_args dst) = Inl e)"
  by (auto simp add: encode_cmds_def encode_def VideoEnc_init_def Popen_def Let_def bind_def
      split: sum.splits)

section \<open>Probing a video\<close>

lemma isl_bind: "isl (bind m f) \<longleftrightarrow> isl m \<or> (\<exists>x. m = Inr x \<and> isl (f x))"
  by (cases m) simp_all

lemma dimensions_of_fields:
  "bind (index ds 0) (\<lambda>d0. bind (py_int d0) (\<lambda>w.
     bind (index ds 1) (\<lambda>d1. bind (py_int d1) (\<lambda>h. Inr (w, h))))) = Inr wh
   \<longleftrightarrow> (case ds of
          d0 # d1 # _ \<Rightarrow> (case (py_int d0, py_int d1) of
                           (Inr w, Inr h) \<Rightarrow> Some (w, h)
                         | _ \<Rightarrow> None)
        | _ \<Rightarrow> None) = Some wh"
proof (cases ds)
  case Nil
  then show ?thesis by (simp add: index_def)
next
  case (Cons d0 ds')
  show ?thesis
  proof (cases ds')
    case Nil
    then show ?thesis using Cons by (cases "py_int d0") (simp_all add: index_def)
  next
    case (Cons d1 ds'')
    then show ?thesis using \<open>ds = d0 # ds'\<close>
      by (cases "py_int d0"; cases "py_int d1") (simp_all add: index_def)
  qed
qed

lemma get_video_dimensions_Inr:
  "get_video_dimensions world p = Inr wh
   \<longleftrightarrow> (\<exists>out err. subprocess_run world (ffprobe_cmd p) = Inr (0, out, err)
          \<and> parse_dimensions out = Some wh)"
proof (cases "subprocess_run world (ffprobe_cmd p)")
  case (Inl e)
  then show ?thesis by (simp add: get_video_dimensions_def)
next
  case (Inr res)
  obtain rc out err where res: "res = (rc, out, err)" by (cases res) auto
  show ?thesis
    unfolding get_video_dimensions_def Inr res bind_Inr prod.case Let_def parse_dimensions_def
    using dimensions_of_fields [of "split_char (CHR ''x'') (strip out)" wh]
    by auto
qed

lemma CoreVideo_init_Inr:
  "CoreVideo_init world pth = Inr v
   \<longleftrightarrow> (\<exists>sz out err w h. getsize world pth = Some sz
          \<and> subprocess_run world (ffprobe_cmd pth) = Inr (0, out, err)
          \<and> parse_dimensions out = Some (w, h)
          \<and> v = \<lparr>path = pth, name = basename pth, size_f = sz,
                  video_width = w, video_height = h\<rparr>)"
proof (cases "getsize world pth")
  case None
  then show ?thesis by (simp add: CoreVideo_init_def get_input_filesize_def)
next
  case (Some sz)
  show ?thesis
  proof (cases "get_video_dimensions world pth")
    case (Inl e)
    then have "\<not> (\<exists>out err w h. subprocess_run world (ffprobe_cmd pth) = Inr (0, out, err)
          \<and> parse_dimensions out = Some (w, h))"
      using get_video_dimensions_Inr [of world pth] by auto
    then show ?thesis using Some Inl
      by (auto simp add: CoreVideo_init_def get_input_filesize_def)
  next
    case (Inr wh)
    obtain w h where wh: "wh = (w, h)" by (cases wh) auto
    from Inr obtain out err where
      run: "subprocess_run world (ffprobe_cmd pth) = Inr (0, out, err)"
      and pd: "parse_dimensions out = Some (w, h)"
      unfolding get_video_dimensions_Inr wh by blast
    show ?thesis using Some Inr wh run pd
      by (auto simp add: CoreVideo_init_def get_input_filesize_def)
  qed
qed

lemma CoreVideo_init_isl:
  "isl (CoreVideo_init world pth) \<longleftrightarrow>
       getsize world pth = None
     \<or> isl (subprocess_run world (ffprobe_cmd pth))
     \<or> (\<exists>rc out err. subprocess_run world (ffprobe_cmd pth) = Inr (rc, out, err)
           \<and> (rc \<noteq> 0 \<or> parse_dimensions out = None))"
proof -
  have "\<not> isl (CoreVideo_init world pth) \<longleftrightarrow> (\<exists>v. CoreVideo_init world pth = Inr v)"
    by (cases "CoreVideo_init world pth") simp_all
  also have "\<dots> \<longleftrightarrow> (\<exists>sz out err w h. getsize world pth = Some sz
          \<and> subprocess_run world (ffprobe_cmd pth) = Inr (0, out, err)
          \<and> parse_dimensions out = Some (w, h))"
    unfolding CoreVideo_init_Inr by blast
  finally have ok: "\<not> isl (CoreVideo_init world pth)
      \<longleftrightarrow> (\<exists>sz out err w h. getsize world pth = Some sz
          \<and> subprocess_run world (ffprobe_cmd pth) = Inr (0, out, err)
          \<and> parse_dimensions out = Some (w, h))" .
  show ?thesis
  proof (cases "subprocess_run world (ffprobe_cmd pth)")
    case (Inl e)
    then show ?thesis using ok by auto
  next
    case (Inr res)
    obtain rc out err where res: "res = (rc, out, err)" by (cases res) auto
    show ?thesis using ok unfolding Inr res
      by (cases "getsize world pth"; cases "parse_dimensions out") auto
  qed
qed

text \<open>A video that cannot be probed ends the batch.\<close>

lemma video_loop_probe_failure:
  "p \<in> set ps \<Longrightarrow> isl (CoreVideo_init world p)
     \<Longrightarrow> isl (video_loop world enc enc_args clean qs ps i T)"
proof (induction ps arbitrary: i T)
  case Nil
  then show ?case by simp
next
  case (Cons a ps)
  show ?case
  proof (cases "CoreVideo_init world a")
    case (Inl e)
    then show ?thesis by simp
  next
    case (Inr s)
    then have "p \<in> set ps" using Cons.prems by auto
    then show ?thesis using Inr Cons.IH Cons.prems(2)
      by (cases "quality_loop world enc enc_args clean s i qs T") simp_all
  qed
qed

lemma stats_run_probe_failure:
  assumes "p \<in> set src_pth" and "isl (CoreVideo_init world p)"
  shows "isl (stats_run world fs src_pth quality_list enc csv_out clean enc_args)"
  unfolding stats_run_def Let_def isl_bind
  using video_loop_probe_failure [OF assms] by blast

lemma parse_0x0: "parse_dimensions ''0x0'' = Some (0, 0)"
  by code_simp

lemma parse_1920x1080: "parse_dimensions ''1920x1080'' = Some (1920, 1080)"
  by code_simp

lemma basename_clip: "basename ''clip.mp4'' = ''clip.mp4''"
  by code_simp

text \<open>
  Claim C9, as stated, fails when ffprobe exits with status 0 and prints \<open>0x0\<close>: the
  output does not give two positive integers, yet the descriptor is built, with width 0
  and height 0.
\<close>

theorem CoreVideo_init_0x0:
  "subprocess_run example_world_0x0 (ffprobe_cmd ''clip.mp4'') = Inr (0, ''0x0'', [])
   \<and> CoreVideo_init example_world_0x0 ''clip.mp4''
       = Inr \<lparr>path = ''clip.mp4'', name = ''clip.mp4'', size_f = 500,
              video_width = 0, video_height = 0\<rparr>"
  by (simp add: CoreVideo_init_Inr example_world_0x0_def example_world_def parse_0x0
      basename_clip)

text \<open>
  Claim C9, amended. Constructing a video descriptor fails exactly when the size of
  the file cannot be read, ffprobe cannot be started or exits with a non-zero status, or
  its output cannot be parsed into two integers; otherwise the descriptor's width and
  height are the two parsed integers, whatever their sign. A failure is the result of
  the single-encode job, and it makes the batch fail.
\<close>

theorem CoreVideo_init_outcome:
  "(isl (CoreVideo_init world pth) \<longleftrightarrow>
       getsize world pth = None
     \<or> isl (subprocess_run world (ffprobe_cmd pth))
     \<or> (\<exists>rc out err. subprocess_run world (ffprobe_cmd pth) = Inr (rc, out, err)
           \<and> (rc \<noteq> 0 \<or> parse_dimensions out = None)))
   \<and> (\<forall>sz out err w h.
         getsize world pth = Some sz
         \<and> subprocess_run world (ffprobe_cmd pth) = Inr (0, out, err)
         \<and> parse_dimensions out = Some (w, h)
         \<longrightarrow> CoreVideo_init world pth
               = Inr \<lparr>path = pth, name = basename pth, size_f = sz,
                      video_width = w, video_height = h\<rparr>)
   \<and> (\<forall>e. CoreVideo_init world pth = Inl e
         \<longrightarrow> encode_main world pth dst qv enc enc_args = Inl e
            \<and> (pth \<in> set src_pth
                 \<longrightarrow> isl (stats_run world fs src_pth quality_list enc csv_out clean enc_args)))"
proof (intro conjI allI impI)
  show "isl (CoreVideo_init world pth) \<longleftrightarrow>
       getsize world pth = None
     \<or> isl (subprocess_run world (ffprobe_cmd pth))
     \<or> (\<exists>rc out err. subprocess_run world (ffprobe_cmd pth) = Inr (rc, out, err)
           \<and> (rc \<noteq> 0 \<or> parse_dimensions out = None))"
    by (rule CoreVideo_init_isl)
next
  fix sz out err w h
  assume "getsize world pth = Some sz
         \<and> subprocess_run world (ffprobe_cmd pth) = Inr (0, out, err)
         \<and> parse_dimensions out = Some (w, h)"
  then show "CoreVideo_init world pth
               = Inr \<lparr>path = pth, name = basename pth, size_f = sz,
                      video_width = w, video_height = h\<rparr>"
    unfolding CoreVideo_init_Inr by blast
next
  fix e assume "CoreVideo_init world pth = Inl e"
  then show "encode_main world pth dst qv enc enc_args = Inl e"
    by (simp add: encode_main_def)
next
  fix e assume "CoreVideo_init world pth = Inl e" and "pth \<in> set src_pth"
  then show "isl (stats_run world fs src_pth quality_list enc csv_out clean enc_args)"
    using stats_run_probe_failure [of pth src_pth world] by simp
qed

theorem CoreVideo_init_outcome_witness:
  "\<not> isl (CoreVideo_init (example_world []) ''clip.mp4'')
   \<and> CoreVideo_init (example_world []) ''clip.mp4''
       = Inr \<lparr>path = ''clip.mp4'', name = ''clip.mp4'', size_f = 500,
              video_width = 1920, video_height = 1080\<rparr>
   \<and> isl (CoreVideo_init ((example_world [])\<lparr>getsize := (\<lambda>p. None)\<rparr>) ''clip.mp4'')
   \<and> isl (encode_main ((example_world [])\<lparr>getsize := (\<lambda>p. None)\<rparr>) ''clip.mp4'' None 23
            ''x264'' [])"
proof -
  have good: "CoreVideo_init (example_world []) ''clip.mp4''
       = Inr \<lparr>path = ''clip.mp4'', name = ''clip.mp4'', size_f = 500,
              video_width = 1920, video_height = 1080\<rparr>"
    using CoreVideo_init_outcome [where world = "example_world []" and pth = "''clip.mp4''"]
    by (simp add: example_world_def parse_1920x1080 basename_clip)
  have bad: "isl (CoreVideo_init ((example_world [])\<lparr>getsize := (\<lambda>p. None)\<rparr>) ''clip.mp4'')"
    using CoreVideo_init_outcome [where world = "(example_world [])\<lparr>getsize := (\<lambda>p. None)\<rparr>"
        and pth = "''clip.mp4''"]
    by simp
  then obtain e where
    "CoreVideo_init ((example_world [])\<lparr>getsize := (\<lambda>p. None)\<rparr>) ''clip.mp4'' = Inl e"
    by (cases "CoreVideo_init ((example_world [])\<lparr>getsize := (\<lambda>p. None)\<rparr>) ''clip.mp4''")
      simp_all
  then have "encode_main ((example_world [])\<lparr>getsize := (\<lambda>p. None)\<rparr>) ''clip.mp4'' None 23
      ''x264'' [] = Inl e"
    using CoreVideo_init_outcome [where world = "(example_world [])\<lparr>getsize := (\<lambda>p. None)\<rparr>"
        and pth = "''clip.mp4''" and dst = None and qv = 23 and enc = "''x264''"
        and enc_args = "[]"]
    by blast
  then show ?thesis using good bad by simp
qed

section \<open>The batch of stats.py\<close>

lemma collect_map: "(\<And>x. x \<in> set xs \<Longrightarrow> f x = Inr (g x)) \<Longrightarrow> collect f xs = Inr (map g xs)"
  by (induction xs) simp_all

lemma filled_set: "filled n ks tbl \<Longrightarrow> j < n \<Longrightarrow> k \<in> set ks \<Longrightarrow> \<exists>v. (tbl ! j) k = Some v"
  by (auto simp add: filled_def list_all_iff)

lemma column_filled:
  assumes "filled n ks tbl" and "k \<in> set ks"
  shows "column tbl n k = Inr (recorded tbl k)"
proof -
  have len: "length tbl = n" using assms(1) by (simp add: filled_def)
  have "collect (fetch tbl k) [0..<n] = Inr (map (\<lambda>j. the ((tbl ! j) k)) [0..<n])"
  proof (rule collect_map)
    fix j assume "j \<in> set [0..<n]"
    then have j: "j < n" by simp
    then obtain v where "(tbl ! j) k = Some v" using filled_set [OF assms(1) _ assms(2)] by blast
    then show "fetch tbl k j = Inr (the ((tbl ! j) k))" using j len by (simp add: fetch_def)
  qed
  moreover have "map (\<lambda>j. the ((tbl ! j) k)) [0..<n] = map (\<lambda>d. the (d k)) tbl"
    unfolding len [symmetric] by (rule nth_equalityI) simp_all
  ultimately show ?thesis by (simp add: column_def recorded_def)
qed

lemma write_stats_append:
  "write_stats fs nm k t sz p s w = append_rows fs nm [Stats k t sz p s w]"
  by (simp add: write_stats_def append_rows_def csv_name_def Let_def split: option.splits)

lemma append_rows_Cons:
  "append_rows (append_rows fs nm [r]) nm rs = append_rows fs nm (r # rs)"
  by (simp add: append_rows_def split: option.splits)

lemma append_rows_Nil: "append_rows fs nm [] = fs"
  by (simp add: append_rows_def)

lemma summary_step:
  assumes c: "complete n ks T" and k: "k \<in> set ks" and n: "0 < n"
  shows "summary_loop T n csv_out (k # qs) fs
           = summary_loop T n csv_out qs (append_rows fs csv_out [summary_row T k])"
proof -
  have f: "filled n ks (cumulative_sizes T)" "filled n ks (cumulative_times T)"
      "filled n ks (cumulative_psnr T)" "filled n ks (cumulative_ssim T)"
      "filled n ks (cumulative_wxpsnr T)"
    using c by (simp_all add: complete_def)
  have len: "length (cumulative_sizes T) = n" "length (cumulative_times T) = n"
      "length (cumulative_psnr T) = n" "length (cumulative_ssim T) = n"
      "length (cumulative_wxpsnr T) = n"
    using f by (simp_all add: filled_def)
  have d: "\<And>x. py_div x (real n) = Inr (x / real n)" using n by (simp add: py_div_def)
  have m: "\<And>tbl :: (int \<rightharpoonup> real) list. length tbl = n \<Longrightarrow> sum_list (recorded tbl k) / real n = mean (recorded tbl k)"
    by (simp add: mean_def recorded_def)
  have ms: "real_of_int (sum_list (recorded (cumulative_sizes T) k)) / real n
        = mean (map real_of_int (recorded (cumulative_sizes T) k))"
    using len(1) by (simp add: mean_def recorded_def sum_list_of_int [symmetric] comp_def)
  show ?thesis
    by (simp add: column_filled [OF f(1) k] column_filled [OF f(2) k] column_filled [OF f(3) k]
        column_filled [OF f(4) k] column_filled [OF f(5) k] d m len ms write_stats_append
        summary_row_def)
qed

lemma summary_loop_complete:
  assumes c: "complete n ks T" and n: "0 < n"
  shows "set qs \<subseteq> set ks \<Longrightarrow>
     summary_loop T n csv_out qs fs = Inr (append_rows fs csv_out (map (summary_row T) qs))"
proof (induction qs arbitrary: fs)
  case Nil
  then show ?case by (simp add: append_rows_Nil)
next
  case (Cons k qs)
  then have k: "k \<in> set ks" and sub: "set qs \<subseteq> set ks" by auto
  show ?case
    unfolding summary_step [OF c k n] Cons.IH [OF sub] by (simp add: append_rows_Cons)
qed

lemma init_dict: "k \<in> set ks \<Longrightarrow> map_of (map (\<lambda>k. (k, z)) ks) k = Some z"
  by (induction ks) auto

lemma filled_init: "filled n ks (init_table n ks z)"
  by (simp add: filled_def init_table_def list_all_iff init_dict)

lemma store_Inr: "store tbl i k v = Inr tbl' \<longleftrightarrow> i < length tbl \<and> tbl' = tbl[i := (tbl ! i)(k \<mapsto> v)]"
  by (auto simp add: store_def)

lemma store_filled:
  assumes "filled n ks tbl" and "store tbl i k v = Inr tbl'"
  shows "filled n ks tbl'"
proof -
  from assms(2) have i: "i < length tbl" and t: "tbl' = tbl[i := (tbl ! i)(k \<mapsto> v)]"
    by (simp_all add: store_Inr)
  have "\<And>d. d \<in> set tbl' \<Longrightarrow> \<forall>x\<in>set ks. d x \<noteq> None"
  proof -
    fix d assume "d \<in> set tbl'"
    then have "d = (tbl ! i)(k \<mapsto> v) \<or> d \<in> set tbl"
      unfolding t using set_update_subset_insert [of tbl i] by blast
    moreover have "tbl ! i \<in> set tbl" using i by simp
    ultimately show "\<forall>x\<in>set ks. d x \<noteq> None"
      using assms(1) by (auto simp add: filled_def list_all_iff)
  qed
  then show ?thesis using assms(1) t by (simp add: filled_def list_all_iff)
qed

lemma record_cell_Inr:
  "record_cell T i k t v = Inr T' \<longleftrightarrow>
     (\<exists>times sizes psnrs ssims wxpsnrs.
        store (cumulative_times T) i k t = Inr times
      \<and> store (cumulative_sizes T) i k (size_f v) = Inr sizes
      \<and> store (cumulative_psnr T) i k (psnr v) = Inr psnrs
      \<and> store (cumulative_ssim T) i k (ssim v) = Inr ssims
      \<and> store (cumulative_wxpsnr T) i k (w_xpsnr v) = Inr wxpsnrs
      \<and> T' = \<lparr>cumulative_sizes = sizes, cumulative_times = times, cumulative_psnr = psnrs,
               cumulative_ssim = ssims, cumulative_wxpsnr = wxpsnrs\<rparr>)"
  unfolding record_cell_def bind_eq_Inr by auto

lemma record_cell_complete:
  assumes "complete n ks T" and "record_cell T i k t v = Inr T'"
  shows "complete n ks T'"
  using assms unfolding record_cell_Inr complete_def
  by (auto intro: store_filled)

lemma record_cell_ok:
  assumes "complete n ks T" and "i < n"
  shows "\<exists>T'. record_cell T i k t v = Inr T'"
proof -
  have "length (cumulative_sizes T) = n" "length (cumulative_times T) = n"
      "length (cumulative_psnr T) = n" "length (cumulative_ssim T) = n"
      "length (cumulative_wxpsnr T) = n"
    using assms(1) by (simp_all add: complete_def filled_def)
  then show ?thesis using assms(2)
    by (simp add: record_cell_def store_def)
qed

lemma quality_loop_Cons_Inr:
  "quality_loop world enc enc_args clean s i (k # qs) T = Inr T'' \<longleftrightarrow>
     (\<exists>e t v T'. measure_cell world enc enc_args s k = Inr (e, t, v)
        \<and> record_cell T i k t v = Inr T'
        \<and> (clean \<longrightarrow> remove_output world e = Inr ())
        \<and> quality_loop world enc enc_args clean s i qs T' = Inr T'')"
  by (cases clean) (auto simp add: bind_eq_Inr)

lemma quality_loop_complete:
  "complete n ks T \<Longrightarrow> quality_loop world enc enc_args clean s i qs T = Inr T'
     \<Longrightarrow> complete n ks T'"
proof (induction qs arbitrary: T)
  case Nil
  then show ?case by simp
next
  case (Cons k qs)
  from Cons.prems(2) obtain t v T1 where
    r: "record_cell T i k t v = Inr T1"
    and l: "quality_loop world enc enc_args clean s i qs T1 = Inr T'"
    unfolding quality_loop_Cons_Inr by blast
  show ?case using Cons.IH [OF record_cell_complete [OF Cons.prems(1) r] l] .
qed

lemma quality_loop_ok:
  "complete n ks T \<Longrightarrow> i < n \<Longrightarrow> \<forall>k\<in>set qs. cell_ok world enc enc_args clean s k
     \<Longrightarrow> \<exists>T'. quality_loop world enc enc_args clean s i qs T = Inr T'"
proof (induction qs arbitrary: T)
  case Nil
  then show ?case by simp
next
  case (Cons k qs)
  from Cons.prems(3) have "cell_ok world enc enc_args clean s k" by simp
  then obtain e t v where m: "measure_cell world enc enc_args s k = Inr (e, t, v)"
    and rm: "clean \<longrightarrow> remove_output world e = Inr ()"
    by (auto simp add: cell_ok_def split: sum.splits)
  obtain T1 where r: "record_cell T i k t v = Inr T1"
    using record_cell_ok [OF Cons.prems(1,2)] by blast
  have "\<exists>T'. quality_loop world enc enc_args clean s i qs T1 = Inr T'"
    using Cons.IH [OF record_cell_complete [OF Cons.prems(1) r] Cons.prems(2)] Cons.prems(3)
    by simp
  then show ?case unfolding quality_loop_Cons_Inr using m r rm by blast
qed

lemma video_loop_Cons_Inr:
  "video_loop world enc enc_args clean qs (p # ps) i T = Inr r \<longleftrightarrow>
     (\<exists>s T'. CoreVideo_init world p = Inr s
        \<and> quality_loop world enc enc_args clean s i qs T = Inr T'
        \<and> video_loop world enc enc_args clean qs ps (i + 1) T' = Inr r)"
  by (auto simp add: bind_eq_Inr)

lemma video_loop_complete:
  "complete n ks T \<Longrightarrow> video_loop world enc enc_args clean qs ps i T = Inr (i', T')
     \<Longrightarrow> i' = i + length ps \<and> complete n ks T'"
proof (induction ps arbitrary: i T)
  case Nil
  then show ?case by simp
next
  case (Cons p ps)
  from Cons.prems(2) obtain s T1 where
    q: "quality_loop world enc enc_args clean s i qs T = Inr T1"
    and l: "video_loop world enc enc_args clean qs ps (i + 1) T1 = Inr (i', T')"
    unfolding video_loop_Cons_Inr by blast
  show ?case using Cons.IH [OF quality_loop_complete [OF Cons.prems(1) q] l] by simp
qed

lemma video_loop_ok:
  "complete n ks T \<Longrightarrow> i + length ps \<le> n
     \<Longrightarrow> \<forall>p\<in>set ps. \<exists>s. CoreVideo_init world p = Inr s
            \<and> (\<forall>k\<in>set qs. cell_ok world enc enc_args clean s k)
     \<Longrightarrow> \<exists>r. video_loop world enc enc_args clean qs ps i T = Inr r"
proof (induction ps arbitrary: i T)
  case Nil
  then show ?case by simp
next
  case (Cons p ps)
  from Cons.prems(3) obtain s where s: "CoreVideo_init world p = Inr s"
    and ok: "\<forall>k\<in>set qs. cell_ok world enc enc_args clean s k" by auto
  have i: "i < n" using Cons.prems(2) by simp
  obtain T1 where q: "quality_loop world enc enc_args clean s i qs T = Inr T1"
    using quality_loop_ok [OF Cons.prems(1) i ok] by blast
  have "\<exists>r. video_loop world enc enc_args clean qs ps (i + 1) T1 = Inr r"
    using Cons.IH [OF quality_loop_complete [OF Cons.prems(1) q]] Cons.prems(2,3) by simp
  then show ?case unfolding video_loop_Cons_Inr using s q by blast
qed

lemma complete_init:
  "complete n ks \<lparr>cumulative_sizes = init_table n ks 0, cumulative_times = init_table n ks 0,
      cumulative_psnr = init_table n ks 0, cumulative_ssim = init_table n ks 0,
      cumulative_wxpsnr = init_table n ks 0\<rparr>"
  by (simp add: complete_def filled_init)

lemma summary_loop_no_video:
  "summary_loop T 0 csv_out (k # qs) fs = Inl ZeroDivisionError"
  by (simp add: column_def py_div_def)

lemma stats_run_Inr:
  assumes "stats_run world fs src_pth qs enc csv_out clean enc_args = Inr fs'"
  shows "\<exists>T. complete (length src_pth) qs T
           \<and> fs' = append_rows fs csv_out (map (summary_row T) qs)"
proof -
  let ?T0 = "\<lparr>cumulative_sizes = init_table (length src_pth) qs 0,
      cumulative_times = init_table (length src_pth) qs 0,
      cumulative_psnr = init_table (length src_pth) qs 0,
      cumulative_ssim = init_table (length src_pth) qs 0,
      cumulative_wxpsnr = init_table (length src_pth) qs 0\<rparr>"
  from assms obtain i T where
    v: "video_loop world enc enc_args clean qs src_pth 0 ?T0 = Inr (i, T)"
    and su: "summary_loop T i csv_out qs fs = Inr fs'"
    unfolding stats_run_def Let_def bind_eq_Inr by auto
  have i: "i = length src_pth" and c: "complete (length src_pth) qs T"
    using video_loop_complete [OF complete_init v] by simp_all
  show ?thesis
  proof (cases "qs = []")
    case True
    then show ?thesis using su c by (auto simp add: append_rows_Nil)
  next
    case False
    then obtain k qs' where qs: "qs = k # qs'" by (cases qs) auto
    have "i \<noteq> 0"
    proof
      assume "i = 0"
      then have "summary_loop T i csv_out qs fs = Inl ZeroDivisionError"
        unfolding qs by (simp only: summary_loop_no_video)
      then show False using su by simp
    qed
    then have "0 < i" by simp
    then have "summary_loop T i csv_out qs fs = Inr (append_rows fs csv_out (map (summary_row T) qs))"
      using summary_loop_complete [of i qs T qs csv_out fs] c i by simp
    then show ?thesis using su c by auto
  qed
qed

lemma stats_run_ok:
  assumes "src_pth \<noteq> []"
    and "\<forall>p\<in>set src_pth. \<exists>s. CoreVideo_init world p = Inr s
            \<and> (\<forall>k\<in>set qs. cell_ok world enc enc_args clean s k)"
  shows "\<exists>fs'. stats_run world fs src_pth qs enc csv_out clean enc_args = Inr fs'"
proof -
  let ?T0 = "\<lparr>cumulative_sizes = init_table (length src_pth) qs 0,
      cumulative_times = init_table (length src_pth) qs 0,
      cumulative_psnr = init_table (length src_pth) qs 0,
      cumulative_ssim = init_table (length src_pth) qs 0,
      cumulative_wxpsnr = init_table (length src_pth) qs 0\<rparr>"
  have "\<exists>r. video_loop world enc enc_args clean qs src_pth 0 ?T0 = Inr r"
    by (rule video_loop_ok [OF complete_init _ assms(2)]) simp
  then obtain r where v: "video_loop world enc enc_args clean qs src_pth 0 ?T0 = Inr r" ..
  obtain i T where r: "r = (i, T)" by (cases r) auto
  have i: "i = length src_pth" and c: "complete (length src_pth) qs T"
    using video_loop_complete [OF complete_init v [unfolded r]] by simp_all
  have "0 < i" using assms(1) i by simp
  then have "summary_loop T i csv_out qs fs = Inr (append_rows fs csv_out (map (summary_row T) qs))"
    using summary_loop_complete [of i qs T qs csv_out fs] c i by simp
  then show ?thesis unfolding stats_run_def Let_def using v r by simp
qed

lemma row_quality_summary: "map row_quality (map (summary_row T) qs) = map Some qs"
  by (simp add: row_quality_def summary_row_def)

lemma store_nth:
  assumes "store tbl i k v = Inr tbl'"
  shows "(tbl' ! j) k' = (if j = i \<and> k' = k then Some v else (tbl ! j) k')"
proof -
  from assms have i: "i < length tbl" and t: "tbl' = tbl[i := (tbl ! i)(k \<mapsto> v)]"
    by (simp_all add: store_Inr)
  show ?thesis unfolding t using i by (cases "j = i") simp_all
qed

lemma record_cell_entry:
  assumes "record_cell T i k t v = Inr T'"
  shows "entry T' j k' = (if j = i \<and> k' = k then measured t v else entry T j k')"
proof -
  from assms obtain times sizes psnrs ssims wxpsnrs where
    st: "store (cumulative_times T) i k t = Inr times"
      "store (cumulative_sizes T) i k (size_f v) = Inr sizes"
      "store (cumulative_psnr T) i k (psnr v) = Inr psnrs"
      "store (cumulative_ssim T) i k (ssim v) = Inr ssims"
      "store (cumulative_wxpsnr T) i k (w_xpsnr v) = Inr wxpsnrs"
    and T': "T' = \<lparr>cumulative_sizes = sizes, cumulative_times = times, cumulative_psnr = psnrs,
               cumulative_ssim = ssims, cumulative_wxpsnr = wxpsnrs\<rparr>"
    unfolding record_cell_Inr by blast
  show ?thesis
    unfolding entry_def measured_def T'
    by (simp add: store_nth [OF st(1)] store_nth [OF st(2)] store_nth [OF st(3)]
        store_nth [OF st(4)] store_nth [OF st(5)])
qed

lemma quality_loop_frame:
  "quality_loop world enc enc_args clean s i qs T = Inr T' \<Longrightarrow> j \<noteq> i \<or> k \<notin> set qs
     \<Longrightarrow> entry T' j k = entry T j k"
proof (induction qs arbitrary: T)
  case Nil
  then show ?case by simp
next
  case (Cons a qs)
  from Cons.prems(1) obtain t v T1 where
    r: "record_cell T i a t v = Inr T1"
    and l: "quality_loop world enc enc_args clean s i qs T1 = Inr T'"
    unfolding quality_loop_Cons_Inr by blast
  have "entry T' j k = entry T1 j k" using Cons.IH [OF l] Cons.prems(2) by auto
  also have "\<dots> = entry T j k" using record_cell_entry [OF r] Cons.prems(2) by auto
  finally show ?case .
qed

lemma quality_loop_fill:
  "quality_loop world enc enc_args clean s i qs T = Inr T' \<Longrightarrow> k \<in> set qs
     \<Longrightarrow> \<exists>e t v. measure_cell world enc enc_args s k = Inr (e, t, v) \<and> entry T' i k = measured t v"
proof (induction qs arbitrary: T)
  case Nil
  then show ?case by simp
next
  case (Cons a qs)
  from Cons.prems(1) obtain e t v T1 where
    m: "measure_cell world enc enc_args s a = Inr (e, t, v)"
    and r: "record_cell T i a t v = Inr T1"
    and l: "quality_loop world enc enc_args clean s i qs T1 = Inr T'"
    unfolding quality_loop_Cons_Inr by blast
  show ?case
  proof (cases "k \<in> set qs")
    case True
    then show ?thesis using Cons.IH [OF l] by blast
  next
    case False
    then have ka: "k = a" using Cons.prems(2) by simp
    have "entry T' i k = entry T1 i k" using quality_loop_frame [OF l] False by blast
    also have "\<dots> = measured t v" using record_cell_entry [OF r] ka by simp
    finally show ?thesis using m ka by blast
  qed
qed

lemma video_loop_frame:
  "video_loop world enc enc_args clean qs ps i T = Inr (i', T') \<Longrightarrow> j < i
     \<Longrightarrow> entry T' j k = entry T j k"
proof (induction ps arbitrary: i T)
  case Nil
  then show ?case by simp
next
  case (Cons p ps)
  from Cons.prems(1) obtain s T1 where
    q: "quality_loop world enc enc_args clean s i qs T = Inr T1"
    and l: "video_loop world enc enc_args clean qs ps (i + 1) T1 = Inr (i', T')"
    unfolding video_loop_Cons_Inr by blast
  have "entry T' j k = entry T1 j k" using Cons.IH [OF l] Cons.prems(2) by simp
  also have "\<dots> = entry T j k" using quality_loop_frame [OF q] Cons.prems(2) by simp
  finally show ?case .
qed

lemma video_loop_fill:
  "video_loop world enc enc_args clean qs ps i T = Inr (i', T') \<Longrightarrow> j < length ps \<Longrightarrow> k \<in> set qs
     \<Longrightarrow> \<exists>s e t v. CoreVideo_init world (ps ! j) = Inr s
           \<and> measure_cell world enc enc_args s k = Inr (e, t, v)
           \<and> entry T' (i + j) k = measured t v"
proof (induction ps arbitrary: i T j)
  case Nil
  then show ?case by simp
next
  case (Cons p ps)
  from Cons.prems(1) obtain s T1 where
    c: "CoreVideo_init world p = Inr s"
    and q: "quality_loop world enc enc_args clean s i qs T = Inr T1"
    and l: "video_loop world enc enc_args clean qs ps (i + 1) T1 = Inr (i', T')"
    unfolding video_loop_Cons_Inr by blast
  show ?case
  proof (cases j)
    case 0
    obtain e t v where m: "measure_cell world enc enc_args s k = Inr (e, t, v)"
      and en: "entry T1 i k = measured t v"
      using quality_loop_fill [OF q Cons.prems(3)] by blast
    have "entry T' i k = entry T1 i k" using video_loop_frame [OF l, of i k] by simp
    then show ?thesis using 0 c m en by auto
  next
    case (Suc j')
    then have "j' < length ps" using Cons.prems(2) by simp
    from Cons.IH [OF l this Cons.prems(3)] show ?thesis using Suc by simp
  qed
qed

lemma stats_run_entries:
  assumes "stats_run world fs src_pth qs enc csv_out clean enc_args = Inr fs'"
  shows "\<exists>T. complete (length src_pth) qs T
           \<and> fs' = append_rows fs csv_out (map (summary_row T) qs)
           \<and> (\<forall>j<length src_pth. \<forall>k\<in>set qs. \<exists>s e t v.
                 CoreVideo_init world (src_pth ! j) = Inr s
               \<and> measure_cell world enc enc_args s k = Inr (e, t, v)
               \<and> entry T j k = measured t v)"
proof -
  let ?T0 = "\<lparr>cumulative_sizes = init_table (length src_pth) qs 0,
      cumulative_times = init_table (length src_pth) qs 0,
      cumulative_psnr = init_table (length src_pth) qs 0,
      cumulative_ssim = init_table (length src_pth) qs 0,
      cumulative_wxpsnr = init_table (length src_pth) qs 0\<rparr>"
  from assms obtain i T where
    v: "video_loop world enc enc_args clean qs src_pth 0 ?T0 = Inr (i, T)"
    and su: "summary_loop T i csv_out qs fs = Inr fs'"
    unfolding stats_run_def Let_def bind_eq_Inr by auto
  have i: "i = length src_pth" and c: "complete (length src_pth) qs T"
    using video_loop_complete [OF complete_init v] by simp_all
  have rows: "fs' = append_rows fs csv_out (map (summary_row T) qs)"
  proof (cases "qs = []")
    case True
    then show ?thesis using su by (auto simp add: append_rows_Nil)
  next
    case False
    then obtain k qs' where qs: "qs = k # qs'" by (cases qs) auto
    have "i \<noteq> 0"
    proof
      assume "i = 0"
      then have "summary_loop T i csv_out qs fs = Inl ZeroDivisionError"
        unfolding qs by (simp only: summary_loop_no_video)
      then show False using su by simp
    qed
    then have "0 < i" by simp
    then have "summary_loop T i csv_out qs fs = Inr (append_rows fs csv_out (map (summary_row T) qs))"
      using summary_loop_complete [of i qs T qs csv_out fs] c i by simp
    then show ?thesis using su by auto
  qed
  have "\<forall>j<length src_pth. \<forall>k\<in>set qs. \<exists>s e t v.
                 CoreVideo_init world (src_pth ! j) = Inr s
               \<and> measure_cell world enc enc_args s k = Inr (e, t, v)
               \<and> entry T j k = measured t v"
    using video_loop_fill [OF v] by auto
  then show ?thesis using c rows by blast
qed

lemma get_video_dimensions_1920x1080:
  assumes "subprocess_run world (ffprobe_cmd p) = Inr (0, ''1920x1080'', [])"
  shows "get_video_dimensions world p = Inr (1920, 1080)"
  unfolding get_video_dimensions_Inr using assms parse_1920x1080 by simp

lemma calculate_xpsnr_total:
  assumes "Popen world (xpsnr_cmd (path self) (path s)) = Inr stderr"
  shows "\<exists>r. calculate_xpsnr world self s = Inr r"
  unfolding calculate_xpsnr_result [OF assms] by (simp split: option.splits)

lemma cell_ok_x264:
  assumes size: "\<And>p. getsize world p \<noteq> None"
    and probe: "\<And>p. subprocess_run world (ffprobe_cmd p) = Inr (0, ''1920x1080'', [])"
    and run: "\<And>cmd. \<exists>report. popen world cmd = Inr report"
    and rm: "\<And>p. removable world p"
  shows "cell_ok world ''x264'' [] clean s k"
proof -
  define job where "job = VideoEnc_init s k ''x264'' [] (Some [])"
  have enc: "encoder job = ''x264''" by (simp add: job_def VideoEnc_init_def)
  obtain ff_cmd enc_cmd dec_pth where cmds: "encode_cmds job = (ff_cmd, enc_cmd, dec_pth)"
    by (cases "encode_cmds job") auto
  have ne: "ff_cmd \<noteq> []" "enc_cmd \<noteq> []"
    using cmds enc by (auto simp add: encode_cmds_def Let_def)
  obtain r1 r2 where p1: "Popen world ff_cmd = Inr r1" and p2: "Popen world enc_cmd = Inr r2"
    using run ne by (metis Popen_def)
  obtain sz where sz: "getsize world (dst_pth job) = Some sz"
    using size [of "dst_pth job"] by auto
  obtain v where dv: "DstVideo_init world dec_pth (dst_pth job) = Inr v"
    by (simp add: DstVideo_init_def get_input_filesize_def sz get_video_dimensions_1920x1080 [OF probe])
  have e: "encode world job = Inr (job\<lparr>time := Some (elapsed world enc_cmd)\<rparr>, v)"
    by (simp add: encode_def cmds enc p1 p2 dv)
  obtain r3 where p3: "Popen world (psnr_ssim_cmd (path s) (path v)) = Inr r3"
    using run by (metis Popen_def list.distinct(1) psnr_ssim_cmd_def)
  obtain v1 where c1: "calculate_psnr_ssim world v s = Inr v1"
    by (simp add: calculate_psnr_ssim_result [OF p3])
  obtain r4 where p4: "Popen world (xpsnr_cmd (path v1) (path s)) = Inr r4"
    using run by (metis Popen_def list.distinct(1) xpsnr_cmd_def)
  obtain v2 where c2: "calculate_xpsnr world v1 s = Inr v2"
    using calculate_xpsnr_total [OF p4] by blast
  have m: "measure_cell world ''x264'' [] s k
      = Inr (job\<lparr>time := Some (elapsed world enc_cmd)\<rparr>, elapsed world enc_cmd, v2)"
    unfolding measure_cell_def job_def [symmetric] by (simp add: e get_time_def c1 c2)
  have "remove_output world (job\<lparr>time := Some (elapsed world enc_cmd)\<rparr>) = Inr ()"
    using rm enc by (simp add: remove_output_def os_remove_def)
  then show ?thesis unfolding cell_ok_def m by simp
qed

lemma csv_name_out: "csv_name ''out'' = ''out.csv''"
  by code_simp

lemma CoreVideo_init_example: 
  "CoreVideo_init (example_world report) ''clip.mp4'' = Inr (example_source\<lparr>size_f := 500\<rparr>)"
  by (simp add: CoreVideo_init_Inr example_world_def example_source_def parse_1920x1080 basename_clip)

text \<open>
  Claim C7. When the batch run returns, the CSV file has gained exactly one row per
  entry of the quality list, in the order of the list (duplicates included, nothing
  sorted), after the header if the file is new; and the run does return when there is
  at least one video, every video can be probed and every cell runs through.
\<close>

theorem stats_run_row_order:
  "(stats_run world fs src_pth qs enc csv_out clean enc_args = Inr fs' \<longrightarrow>
       (\<exists>rows. fs' = append_rows fs csv_out rows \<and> map row_quality rows = map Some qs))
   \<and> (src_pth \<noteq> []
       \<and> (\<forall>p\<in>set src_pth. \<exists>s. CoreVideo_init world p = Inr s
              \<and> (\<forall>k\<in>set qs. cell_ok world enc enc_args clean s k))
        \<longrightarrow> (\<exists>fs'. stats_run world fs src_pth qs enc csv_out clean enc_args = Inr fs'))"
proof (intro conjI impI)
  assume "stats_run world fs src_pth qs enc csv_out clean enc_args = Inr fs'"
  from stats_run_entries [OF this] obtain T where
    "fs' = append_rows fs csv_out (map (summary_row T) qs)" by blast
  then show "\<exists>rows. fs' = append_rows fs csv_out rows \<and> map row_quality rows = map Some qs"
    using row_quality_summary [of T qs] by blast
next
  assume "src_pth \<noteq> []
       \<and> (\<forall>p\<in>set src_pth. \<exists>s. CoreVideo_init world p = Inr s
              \<and> (\<forall>k\<in>set qs. cell_ok world enc enc_args clean s k))"
  then show "\<exists>fs'. stats_run world fs src_pth qs enc csv_out clean enc_args = Inr fs'"
    using stats_run_ok [of src_pth world qs enc enc_args clean fs csv_out] by blast
qed

theorem stats_run_row_order_witness:
  "\<exists>fs' rows. stats_run (example_world ''no scores'') Map.empty [''clip.mp4''] [40, 20, 30]
                 ''x264'' ''out'' True [] = Inr fs'
       \<and> fs' ''out.csv'' = Some (Header # rows)
       \<and> map row_quality rows = [Some 40, Some 20, Some 30]"
proof -
  let ?w = "example_world ''no scores''"
  note inst = stats_run_row_order [where world = ?w and fs = Map.empty
      and src_pth = "[''clip.mp4'']" and qs = "[40, 20, 30]" and enc = "''x264''"
      and csv_out = "''out''" and clean = True and enc_args = "[]"]
  have cells: "\<And>s k. cell_ok ?w ''x264'' [] True s k"
    by (rule cell_ok_x264) (simp_all add: example_world_def)
  have "\<exists>fs'. stats_run ?w Map.empty [''clip.mp4''] [40, 20, 30] ''x264'' ''out'' True [] = Inr fs'"
    using inst cells CoreVideo_init_example [of "''no scores''"] by simp
  then obtain fs' where
    run: "stats_run ?w Map.empty [''clip.mp4''] [40, 20, 30] ''x264'' ''out'' True [] = Inr fs'" ..
  then obtain rows where rows: "fs' = append_rows Map.empty ''out'' rows"
    and qual: "map row_quality rows = [Some 40, Some 20, Some 30]"
    using inst [of fs'] by auto
  from qual have "rows \<noteq> []" by auto
  then have content: "fs' ''out.csv'' = Some (Header # rows)"
    unfolding rows by (simp add: append_rows_def csv_name_out)
  show ?thesis
    by (rule exI [of _ fs'], rule exI [of _ rows]) (simp only: run content qual simp_thms)
qed

lemma str_int_30: "str_int 30 = ''30''"
  by code_simp

lemma splitext_a: "splitext ''a.mp4'' = (''a'', ''.mp4'')"
  by code_simp

lemma basename_a: "basename ''a.mp4'' = ''a.mp4''"
  by code_simp

lemma search_xpsnr_38:
  "re_search xpsnr_rgx ''XPSNR y: 38.0 u: 38.0 v: 38.0''
     = Some ((''38'', ''0''), (''38'', ''0''), (''38'', ''0''))"
  by code_simp

lemma search_average_38:
  "re_search (labelled_decimal ''average:'') ''XPSNR y: 38.0 u: 38.0 v: 38.0'' = None"
  by code_simp

lemma search_All_38:
  "re_search (labelled_decimal ''All:'') ''XPSNR y: 38.0 u: 38.0 v: 38.0'' = None"
  by code_simp

lemma float_38: "float_of_group (''38'', ''0'') = 38"
  by (simp add: float_of_group_def nat_of_digits_def digit_val_def)

lemma CoreVideo_init_example2_a:
  "CoreVideo_init example_world2 ''a.mp4''
     = Inr \<lparr>path = ''a.mp4'', name = ''a.mp4'', size_f = 1000,
            video_width = 1920, video_height = 1080\<rparr>"
  by (simp add: CoreVideo_init_Inr example_world2_def parse_1920x1080 basename_a)

lemma measure_cell_example2_a:
  "\<exists>e v. measure_cell example_world2 ''x264'' []
            \<lparr>path = ''a.mp4'', name = ''a.mp4'', size_f = 1000,
             video_width = 1920, video_height = 1080\<rparr> 30 = Inr (e, 2, v)
         \<and> size_f v = 1000 \<and> psnr v = 0 \<and> ssim v = 0 \<and> w_xpsnr v = 38"
proof -
  define s where "s = \<lparr>path = ''a.mp4'', name = ''a.mp4'', size_f = 1000,
             video_width = 1920, video_height = (1080::int)\<rparr>"
  define job where "job = VideoEnc_init s 30 ''x264'' [] (Some [])"
  have dst: "dst_pth job = ''a_x264_q30.264''"
    by (simp add: job_def s_def VideoEnc_init_def get_ext_def splitext_a str_int_30)
  have enc: "encoder job = ''x264''" by (simp add: job_def VideoEnc_init_def)
  obtain ff_cmd enc_cmd dec_pth where cmds: "encode_cmds job = (ff_cmd, enc_cmd, dec_pth)"
    by (cases "encode_cmds job") auto
  have ne: "ff_cmd \<noteq> []" "enc_cmd \<noteq> []" and dec: "dec_pth = ''a_x264_q30.264''"
    using cmds enc dst by (auto simp add: encode_cmds_def Let_def)
  have p: "\<And>cmd. cmd \<noteq> [] \<Longrightarrow> \<exists>r. Popen example_world2 cmd = Inr r"
    by (simp add: Popen_def example_world2_def)
  obtain r1 r2 where p1: "Popen example_world2 ff_cmd = Inr r1"
    and p2: "Popen example_world2 enc_cmd = Inr r2"
    using p ne by blast
  define v0 where "v0 = \<lparr>path = ''a_x264_q30.264'', name = basename ''a_x264_q30.264'',
      size_f = 1000, video_width = 1920, video_height = 1080, enc_path = ''a_x264_q30.264'',
      xpsnr_y = 0, xpsnr_u = 0, xpsnr_v = 0, w_xpsnr = 0, psnr = 0, ssim = (0::real)\<rparr>"
  have probe: "get_video_dimensions example_world2 ''a_x264_q30.264'' = Inr (1920, 1080)"
    by (rule get_video_dimensions_1920x1080) (simp add: example_world2_def)
  have gs: "getsize example_world2 ''a_x264_q30.264'' = Some 1000"
    by (simp add: example_world2_def)
  have dv: "DstVideo_init example_world2 dec_pth (dst_pth job) = Inr v0"
    by (simp add: DstVideo_init_def get_input_filesize_def dst dec probe gs v0_def)
  have el: "elapsed example_world2 enc_cmd = 2" by (simp add: example_world2_def)
  have e: "encode example_world2 job = Inr (job\<lparr>time := Some 2\<rparr>, v0)"
    by (simp add: encode_def cmds enc p1 p2 dv el)
  have p3: "Popen example_world2 (psnr_ssim_cmd (path s) (path v0))
      = Inr ''XPSNR y: 38.0 u: 38.0 v: 38.0''"
    by (simp add: Popen_def psnr_ssim_cmd_def example_world2_def s_def v0_def)
  have c1: "calculate_psnr_ssim example_world2 v0 s = Inr v0"
    unfolding calculate_psnr_ssim_result [OF p3] search_average_38 search_All_38
    by (simp add: v0_def)
  have p4: "Popen example_world2 (xpsnr_cmd (path v0) (path s))
      = Inr ''XPSNR y: 38.0 u: 38.0 v: 38.0''"
    by (simp add: Popen_def xpsnr_cmd_def example_world2_def s_def v0_def)
  have c2: "calculate_xpsnr example_world2 v0 s
      = Inr (v0\<lparr>xpsnr_y := 38, xpsnr_u := 38, xpsnr_v := 38, w_xpsnr := 38\<rparr>)"
    unfolding calculate_xpsnr_result [OF p4] search_xpsnr_38
    by (simp add: float_38 weighted_equal)
  have "measure_cell example_world2 ''x264'' [] s 30
      = Inr (job\<lparr>time := Some 2\<rparr>, 2,
             v0\<lparr>xpsnr_y := 38, xpsnr_u := 38, xpsnr_v := 38, w_xpsnr := 38\<rparr>)"
    unfolding measure_cell_def job_def [symmetric] by (simp add: e get_time_def c1 c2)
  then show ?thesis unfolding s_def by (simp add: v0_def)
qed

lemma splitext_b: "splitext ''b.mp4'' = (''b'', ''.mp4'')"
  by code_simp

lemma basename_b: "basename ''b.mp4'' = ''b.mp4''"
  by code_simp

lemma search_xpsnr_40:
  "re_search xpsnr_rgx ''XPSNR y: 40.0 u: 40.0 v: 40.0''
     = Some ((''40'', ''0''), (''40'', ''0''), (''40'', ''0''))"
  by code_simp

lemma search_average_40:
  "re_search (labelled_decimal ''average:'') ''XPSNR y: 40.0 u: 40.0 v: 40.0'' = None"
  by code_simp

lemma search_All_40:
  "re_search (labelled_decimal ''All:'') ''XPSNR y: 40.0 u: 40.0 v: 40.0'' = None"
  by code_simp

lemma CoreVideo_init_example2_b:
  "CoreVideo_init example_world2 ''b.mp4''
     = Inr \<lparr>path = ''b.mp4'', name = ''b.mp4'', size_f = 1001,
            video_width = 1920, video_height = 1080\<rparr>"
  by (simp add: CoreVideo_init_Inr example_world2_def parse_1920x1080 basename_b)

lemma measure_cell_example2_b:
  "\<exists>e v. measure_cell example_world2 ''x264'' []
            \<lparr>path = ''b.mp4'', name = ''b.mp4'', size_f = 1001,
             video_width = 1920, video_height = 1080\<rparr> 30 = Inr (e, 2, v)
         \<and> size_f v = 1001 \<and> psnr v = 0 \<and> ssim v = 0 \<and> w_xpsnr v = 40"
proof -
  define s where "s = \<lparr>path = ''b.mp4'', name = ''b.mp4'', size_f = 1001,
             video_width = 1920, video_height = (1080::int)\<rparr>"
  define job where "job = VideoEnc_init s 30 ''x264'' [] (Some [])"
  have dst: "dst_pth job = ''b_x264_q30.264''"
    by (simp add: job_def s_def VideoEnc_init_def get_ext_def splitext_b str_int_30)
  have enc: "encoder job = ''x264''" by (simp add: job_def VideoEnc_init_def)
  obtain ff_cmd enc_cmd dec_pth where cmds: "encode_cmds job = (ff_cmd, enc_cmd, dec_pth)"
    by (cases "encode_cmds job") auto
  have ne: "ff_cmd \<noteq> []" "enc_cmd \<noteq> []" and dec: "dec_pth = ''b_x264_q30.264''"
    using cmds enc dst by (auto simp add: encode_cmds_def Let_def)
  have p: "\<And>cmd. cmd \<noteq> [] \<Longrightarrow> \<exists>r. Popen example_world2 cmd = Inr r"
    by (simp add: Popen_def example_world2_def)
  obtain r1 r2 where p1: "Popen example_world2 ff_cmd = Inr r1"
    and p2: "Popen example_world2 enc_cmd = Inr r2"
    using p ne by blast
  define v0 where "v0 = \<lparr>path = ''b_x264_q30.264'', name = basename ''b_x264_q30.264'',
      size_f = 1001, video_width = 1920, video_height = 1080, enc_path = ''b_x264_q30.264'',
      xpsnr_y = 0, xpsnr_u = 0, xpsnr_v = 0, w_xpsnr = 0, psnr = 0, ssim = (0::real)\<rparr>"
  have probe: "get_video_dimensions example_world2 ''b_x264_q30.264'' = Inr (1920, 1080)"
    by (rule get_video_dimensions_1920x1080) (simp add: example_world2_def)
  have gs: "getsize example_world2 ''b_x264_q30.264'' = Some 1001"
    by (simp add: example_world2_def)
  have dv: "DstVideo_init example_world2 dec_pth (dst_pth job) = Inr v0"
    by (simp add: DstVideo_init_def get_input_filesize_def dst dec probe gs v0_def)
  have el: "elapsed example_world2 enc_cmd = 2" by (simp add: example_world2_def)
  have e: "encode example_world2 job = Inr (job\<lparr>time := Some 2\<rparr>, v0)"
    by (simp add: encode_def cmds enc p1 p2 dv el)
  have p3: "Popen example_world2 (psnr_ssim_cmd (path s) (path v0))
      = Inr ''XPSNR y: 40.0 u: 40.0 v: 40.0''"
    by (simp add: Popen_def psnr_ssim_cmd_def example_world2_def s_def v0_def)
  have c1: "calculate_psnr_ssim example_world2 v0 s = Inr v0"
    unfolding calculate_psnr_ssim_result [OF p3] search_average_40 search_All_40
    by (simp add: v0_def)
  have p4: "Popen example_world2 (xpsnr_cmd (path v0) (path s))
      = Inr ''XPSNR y: 40.0 u: 40.0 v: 40.0''"
    by (simp add: Popen_def xpsnr_cmd_def example_world2_def s_def v0_def)
  have c2: "calculate_xpsnr example_world2 v0 s
      = Inr (v0\<lparr>xpsnr_y := 40, xpsnr_u := 40, xpsnr_v := 40, w_xpsnr := 40\<rparr>)"
    unfolding calculate_xpsnr_result [OF p4] search_xpsnr_40
    by (simp add: float_40 weighted_equal)
  have "measure_cell example_world2 ''x264'' [] s 30
      = Inr (job\<lparr>time := Some 2\<rparr>, 2,
             v0\<lparr>xpsnr_y := 40, xpsnr_u := 40, xpsnr_v := 40, w_xpsnr := 40\<rparr>)"
    unfolding measure_cell_def job_def [symmetric] by (simp add: e get_time_def c1 c2)
  then show ?thesis unfolding s_def by (simp add: v0_def)
qed

lemma recorded_two:
  assumes "length tbl = 2"
  shows "recorded tbl k = [the ((tbl ! 0) k), the ((tbl ! 1) k)]"
proof -
  from assms obtain d0 d1 where "tbl = [d0, d1]"
    by (cases tbl; cases "tl tbl") auto
  then show ?thesis by (simp add: recorded_def)
qed

text \<open>
  Claim C6. For complete tables of at least one video the summary loop appends, for each
  quality of the list, the row of the means: the arithmetic mean over the videos of the
  recorded time, PSNR, SSIM and weighted XPSNR, and the truncated mean of the recorded
  sizes. When the whole batch run returns, the rows it has appended are these rows for
  tables that hold, for every video and quality, what the cell measured.
\<close>

theorem stats_run_rows_are_means:
  "(complete n qs T \<and> 0 < n \<longrightarrow>
      summary_loop T n csv_out qs fs = Inr (append_rows fs csv_out (map (summary_row T) qs)))
   \<and> (stats_run world fs src_pth qs enc csv_out clean enc_args = Inr fs' \<longrightarrow>
        (\<exists>T. complete (length src_pth) qs T
           \<and> fs' = append_rows fs csv_out (map (summary_row T) qs)
           \<and> (\<forall>j<length src_pth. \<forall>k\<in>set qs. \<exists>s e t v.
                 CoreVideo_init world (src_pth ! j) = Inr s
               \<and> measure_cell world enc enc_args s k = Inr (e, t, v)
               \<and> entry T j k = measured t v)))"
proof (intro conjI impI)
  assume "complete n qs T \<and> 0 < n"
  then show "summary_loop T n csv_out qs fs = Inr (append_rows fs csv_out (map (summary_row T) qs))"
    using summary_loop_complete [of n qs T qs csv_out fs] by simp
next
  assume "stats_run world fs src_pth qs enc csv_out clean enc_args = Inr fs'"
  then show "\<exists>T. complete (length src_pth) qs T
           \<and> fs' = append_rows fs csv_out (map (summary_row T) qs)
           \<and> (\<forall>j<length src_pth. \<forall>k\<in>set qs. \<exists>s e t v.
                 CoreVideo_init world (src_pth ! j) = Inr s
               \<and> measure_cell world enc enc_args s k = Inr (e, t, v)
               \<and> entry T j k = measured t v)"
    by (rule stats_run_entries)
qed

theorem stats_run_rows_are_means_witness:
  "\<exists>fs'. stats_run example_world2 Map.empty [''a.mp4'', ''b.mp4''] [30] ''x264'' ''out'' True []
            = Inr fs'
       \<and> fs' ''out.csv'' = Some [Header, Stats 30 2 1000 0 0 39]"
proof -
  have cells: "\<And>s k. cell_ok example_world2 ''x264'' [] True s k"
    by (rule cell_ok_x264) (simp_all add: example_world2_def)
  have "\<exists>fs'. stats_run example_world2 Map.empty [''a.mp4'', ''b.mp4''] [30] ''x264'' ''out'' True []
            = Inr fs'"
    by (rule stats_run_ok) (simp_all add: cells CoreVideo_init_example2_a CoreVideo_init_example2_b)
  then obtain fs' where
    run: "stats_run example_world2 Map.empty [''a.mp4'', ''b.mp4''] [30] ''x264'' ''out'' True []
            = Inr fs'" ..
  have "\<exists>T. complete (length [''a.mp4'', ''b.mp4'']) [30] T
           \<and> fs' = append_rows Map.empty ''out'' (map (summary_row T) [30])
           \<and> (\<forall>j<length [''a.mp4'', ''b.mp4'']. \<forall>k\<in>set [30]. \<exists>s e t v.
                 CoreVideo_init example_world2 ([''a.mp4'', ''b.mp4''] ! j) = Inr s
               \<and> measure_cell example_world2 ''x264'' [] s k = Inr (e, t, v)
               \<and> entry T j k = measured t v)"
    using stats_run_rows_are_means [where world = example_world2 and fs = Map.empty
      and src_pth = "[''a.mp4'', ''b.mp4'']" and qs = "[30]" and enc = "''x264''"
      and csv_out = "''out''" and clean = True and enc_args = "[]" and fs' = fs'] run
    by blast
  then obtain T where c0: "complete (length [''a.mp4'', ''b.mp4'']) [30] T"
    and rows0: "fs' = append_rows Map.empty ''out'' (map (summary_row T) [30])"
    and cell0: "\<forall>j<length [''a.mp4'', ''b.mp4'']. \<forall>k\<in>set [30]. \<exists>s e t v.
                 CoreVideo_init example_world2 ([''a.mp4'', ''b.mp4''] ! j) = Inr s
               \<and> measure_cell example_world2 ''x264'' [] s k = Inr (e, t, v)
               \<and> entry T j k = measured t v"
    by blast
  have c: "complete 2 [30] T" using c0 by (simp add: numeral_2_eq_2)
  have rows: "fs' = append_rows Map.empty ''out'' [summary_row T 30]" using rows0 by simp
  have cell: "\<exists>s e t v.
                 CoreVideo_init example_world2 ([''a.mp4'', ''b.mp4''] ! j) = Inr s
               \<and> measure_cell example_world2 ''x264'' [] s 30 = Inr (e, t, v)
               \<and> entry T j 30 = measured t v" if "j < 2" for j
    using cell0 that by (simp add: numeral_2_eq_2)
  have e0: "entry T 0 30 = (Some 2, Some 1000, Some 0, Some 0, Some 38)"
    using cell [of 0] measure_cell_example2_a
    by (auto simp add: CoreVideo_init_example2_a measured_def)
  have e1: "entry T 1 30 = (Some 2, Some 1001, Some 0, Some 0, Some 40)"
    using cell [of 1] measure_cell_example2_b
    by (auto simp add: CoreVideo_init_example2_b measured_def)
  have len: "length (cumulative_sizes T) = 2" "length (cumulative_times T) = 2"
      "length (cumulative_psnr T) = 2" "length (cumulative_ssim T) = 2"
      "length (cumulative_wxpsnr T) = 2"
    using c by (simp_all add: complete_def filled_def)
  have "summary_row T 30 = Stats 30 2 1000 0 0 39"
    using e0 e1 unfolding summary_row_def entry_def
    by (simp add: recorded_two len mean_def int_of_float_def)
  then have "fs' ''out.csv'' = Some [Header, Stats 30 2 1000 0 0 39]"
    unfolding rows by (simp add: append_rows_def csv_name_out)
  then show ?thesis using run by simp
qed

end
